theory Spec2Isabelle
  imports Complex_Main "HOL-Library.Word"
begin

section \<open>JavaScript values used by the front end\<close>

text \<open>
  A JavaScript string is a sequence of UTF-16 code units. String literals of the source that
  are plain ASCII are written with \<open>js\<close>; the Chinese literals are given by their code
  units, with the meaning of the literal in the accompanying text.
\<close>

type_synonym jsstring = "16 word list"

definition js :: "string \<Rightarrow> jsstring" where
  "js s = map (\<lambda>c. of_nat (of_char c)) s"

text \<open>
  \<open>String.prototype.trim\<close> removes the code points of the ECMAScript productions
  WhiteSpace and LineTerminator from both ends; all of them lie in the basic plane.
\<close>

definition isWhiteSpace :: "16 word \<Rightarrow> bool" where
  "isWhiteSpace c \<longleftrightarrow>
     c = 0x9 \<or> c = 0xA \<or> c = 0xB \<or> c = 0xC \<or> c = 0xD \<or> c = 0x20 \<or> c = 0xA0 \<or>
     c = 0x1680 \<or> (0x2000 \<le> c \<and> c \<le> 0x200A) \<or> c = 0x2028 \<or> c = 0x2029 \<or>
     c = 0x202F \<or> c = 0x205F \<or> c = 0x3000 \<or> c = 0xFEFF"

definition trim :: "jsstring \<Rightarrow> jsstring" where
  "trim s = rev (dropWhile isWhiteSpace (rev (dropWhile isWhiteSpace s)))"

text \<open>
  A JavaScript number that results from dividing two integers: division by zero does not
  raise, it yields an infinity or NaN. Finite values are kept as exact rationals; the
  rounding error of IEEE doubles is outside this model.
\<close>

datatype jsnum = Fin rat | PosInf | NegInf | NaN

definition js_div :: "int \<Rightarrow> int \<Rightarrow> jsnum" where
  "js_div a b =
     (if b = 0 then (if a = 0 then NaN else if 0 < a then PosInf else NegInf)
      else Fin (of_int a / of_int b))"

fun js_times :: "jsnum \<Rightarrow> int \<Rightarrow> jsnum" where
  "js_times (Fin x) k = Fin (x * of_int k)"
| "js_times PosInf k = (if k = 0 then NaN else if 0 < k then PosInf else NegInf)"
| "js_times NegInf k = (if k = 0 then NaN else if 0 < k then NegInf else PosInf)"
| "js_times NaN k = NaN"

text \<open>\<open>Math.round\<close>: the nearest integer, a tie going up; infinities and NaN are returned.\<close>

fun Math_round :: "jsnum \<Rightarrow> jsnum" where
  "Math_round (Fin x) = Fin (of_int \<lfloor>x + 1 / 2\<rfloor>)"
| "Math_round v = v"

section \<open>services/api: the data model\<close>

record SearchRequest =
  keyword :: jsstring
  num_results :: int
  start_year :: "int option"
  end_year :: "int option"
  sort_by :: jsstring
  filter_by_title :: "bool option"
  exclude_duplicates :: "bool option"

record AuthorLink =
  al_name :: jsstring
  scholar_url :: jsstring

record AuthorEmail =
  ae_name :: jsstring
  email :: "jsstring option"
  email_source :: jsstring
  homepage :: "jsstring option"

record Article =
  article_id :: "nat option"
  title :: jsstring
  authors :: "jsstring option"
  author_links :: "AuthorLink list option"
  author_emails :: "AuthorEmail list option"
  pdf_fallback_emails :: "jsstring list option"
  venue :: "jsstring option"
  publisher :: "jsstring option"
  year :: "int option"
  citations :: int
  citations_per_year :: rat
  description :: "jsstring option"
  url :: "jsstring option"
  created_at :: "jsstring option"

section \<open>SearchPage\<close>

text \<open>
  What \<open>handleSubmit\<close> does, in order: \<open>e.preventDefault()\<close>, then either the error
  toast or \<open>searchMutation.mutate(formData)\<close>, which calls \<open>searchAPI.search\<close> with
  the form data.
\<close>

datatype search_effect =
    PreventDefault
  | ToastError jsstring
  | SearchMutate SearchRequest

definition handleSubmit :: "SearchRequest \<Rightarrow> search_effect list" where
  "handleSubmit formData =
     PreventDefault #
     (if trim (keyword formData) = [] then [ToastError (js ''Please enter a search keyword'')]
      else [SearchMutate formData])"

section \<open>The batch progress message\<close>

text \<open>
  \<open>BatchProgress\<close> of BatchEmailSender and \<open>ProgressData\<close> of TopProgressBar are the same
  interface: the message received on the batch web socket. The interface declares \<open>type\<close>,
  \<open>step\<close>, \<open>title\<close> and \<open>description\<close> as required, but a message is the result of
  \<open>JSON.parse\<close> and nothing checks it, so every field is optional here: \<open>None\<close> is a field
  that reads as undefined, and for \<open>type\<close> also a value that is neither of the two.
\<close>

datatype progress_type = progress | completion

datatype batch_status = completed | failed

record BatchResult =
  r_total :: int
  r_sent :: int
  r_failed :: int

record BatchProgress =
  bp_type :: "progress_type option"
  bp_step :: "jsstring option"
  bp_title :: "jsstring option"
  bp_description :: "jsstring option"
  bp_progress :: "int option"
  bp_total :: "int option"
  bp_sent :: "int option"
  bp_failed :: "int option"
  bp_status :: "batch_status option"
  bp_result :: "BatchResult option"

type_synonym ProgressData = BatchProgress

text \<open>
  What arrives on the web socket, by what \<open>JSON.parse\<close> makes of it: a text that it
  rejects, the value \<open>null\<close>, or any other value, given by the fields that can be read from
  it (a value that is not an object has none).
\<close>

datatype ws_message = NotJson | JsonNull | JsonValue BatchProgress

text \<open>
  The success rate of both completion panels:
  \<open>result.sent > 0 && Math.round((result.sent / result.total) * 100)\<close>.
  \<open>None\<close> is the case where the guard fails and the expression is not evaluated. The
  quotient and the product are exact here, and rounded to doubles in the code, so that the
  displayed integer can be one less than this value: for 23 sent of 40 the code displays 57
  and this definition gives 58. Whether the divisor is zero does not depend on it.
\<close>

definition success_rate :: "BatchResult \<Rightarrow> jsnum option" where
  "success_rate r =
     (if 0 < r_sent r then Some (Math_round (js_times (js_div (r_sent r) (r_total r)) 100))
      else None)"

section \<open>BatchEmailSender\<close>

record BatchEmailSenderProps =
  searchId :: nat
  totalArticles :: nat

record BatchEmailSender =
  subject :: jsstring
  includeAuthorEmails :: bool
  includePdfEmails :: bool
  isLoading :: bool
  progress_of :: "BatchProgress option"
  isComplete :: bool

text \<open>The body of the POST to \<open>/api/email/batch-send\<close>.\<close>

record BatchSendRequest =
  search_id :: nat
  rq_subject :: jsstring
  include_author_emails :: bool
  include_pdf_emails :: bool

datatype batch_effect =
    Alert jsstring
  | PostBatchSend BatchSendRequest

text \<open>
  The two alerts of \<open>handleBatchSend\<close>: "please enter the mail subject" and
  "please select at least one kind of address".
\<close>

definition msg_enter_subject :: jsstring where
  "msg_enter_subject = [0x8BF7, 0x8F93, 0x5165, 0x90AE, 0x4EF6, 0x4E3B, 0x9898]"

definition msg_select_email_type :: jsstring where
  "msg_select_email_type =
     [0x8BF7, 0x81F3, 0x5C11, 0x9009, 0x62E9, 0x4E00, 0x79CD, 0x90AE, 0x7BB1, 0x7C7B, 0x578B]"

text \<open>"batch send failed: ", the prefix of the alert of the catch block.\<close>

definition msg_batch_send_failed_prefix :: jsstring where
  "msg_batch_send_failed_prefix = [0x6279, 0x91CF, 0x53D1, 0x9001, 0x5931, 0x8D25, 0x3A, 0x20]"

text \<open>
  \<open>handleBatchSend\<close> up to its \<open>await fetch\<close>: the state it leaves and what it did.
\<close>

definition handleBatchSend ::
  "BatchEmailSenderProps \<Rightarrow> BatchEmailSender \<Rightarrow> BatchEmailSender \<times> batch_effect list" where
  "handleBatchSend props st =
     (if trim (subject st) = [] then (st, [Alert msg_enter_subject])
      else if \<not> includeAuthorEmails st \<and> \<not> includePdfEmails st
        then (st, [Alert msg_select_email_type])
      else
        (st\<lparr>isLoading := True, progress_of := None, isComplete := False\<rparr>,
         [PostBatchSend \<lparr>search_id = searchId props, rq_subject = subject st,
            include_author_emails = includeAuthorEmails st,
            include_pdf_emails = includePdfEmails st\<rparr>]))"

text \<open>
  The rest of \<open>handleBatchSend\<close>, once the request has settled. A response that is not
  \<open>ok\<close> and a rejected fetch both end in the catch block, with the message of the error.
\<close>

datatype batch_response = ResponseOk | RequestFailed jsstring

fun handleBatchSend_settled ::
  "BatchEmailSender \<Rightarrow> batch_response \<Rightarrow> BatchEmailSender \<times> batch_effect list" where
  "handleBatchSend_settled st ResponseOk = (st, [])"
| "handleBatchSend_settled st (RequestFailed m) =
     (st\<lparr>isLoading := False\<rparr>, [Alert (msg_batch_send_failed_prefix @ m)])"

text \<open>
  The start button: rendered unless the run is complete, and its \<open>disabled\<close> attribute.
  A click reaches \<open>handleBatchSend\<close> only through a rendered, enabled button.
\<close>

definition start_button_rendered :: "BatchEmailSender \<Rightarrow> bool" where
  "start_button_rendered st \<longleftrightarrow> \<not> isComplete st"

definition start_button_disabled :: "BatchEmailSender \<Rightarrow> bool" where
  "start_button_disabled st \<longleftrightarrow>
     isLoading st \<or> trim (subject st) = [] \<or> (\<not> includeAuthorEmails st \<and> \<not> includePdfEmails st)"

definition click_start ::
  "BatchEmailSenderProps \<Rightarrow> BatchEmailSender \<Rightarrow> BatchEmailSender \<times> batch_effect list" where
  "click_start props st =
     (if start_button_rendered st \<and> \<not> start_button_disabled st then handleBatchSend props st
      else (st, []))"

text \<open>
  \<open>websocket.onmessage\<close>. When \<open>JSON.parse\<close> throws, the catch block only logs. For
  \<open>null\<close>, \<open>setProgress(data)\<close> has run when \<open>data.type\<close> throws. For any other value
  \<open>data.type\<close> is read and compared with \<open>'completion'\<close>.
\<close>

fun sender_onmessage :: "BatchEmailSender \<Rightarrow> ws_message \<Rightarrow> BatchEmailSender" where
  "sender_onmessage st NotJson = st"
| "sender_onmessage st JsonNull = st\<lparr>progress_of := None\<rparr>"
| "sender_onmessage st (JsonValue data) =
     (let st' = st\<lparr>progress_of := Some data\<rparr>
      in if bp_type data = Some completion then st'\<lparr>isLoading := False, isComplete := True\<rparr>
         else st')"

text \<open>
  The success rate of the completion panel, which is rendered under
  \<open>isComplete && progress?.result\<close>.
\<close>

definition sender_success_rate :: "BatchEmailSender \<Rightarrow> jsnum option" where
  "sender_success_rate st =
     (if isComplete st then
        (case progress_of st of
           None \<Rightarrow> None
         | Some p \<Rightarrow> (case bp_result p of None \<Rightarrow> None | Some r \<Rightarrow> success_rate r))
      else None)"

section \<open>TopProgressBar\<close>

record TopProgressBar =
  tp_progress :: "ProgressData option"
  tp_isComplete :: bool

text \<open>
  \<open>websocket.onmessage\<close>, with the same three cases as in the sender dialog. The handler
  schedules \<open>onClose\<close> after 5000 ms when a completion message arrives.
\<close>

datatype topbar_effect = SetTimeout_onClose nat

fun topbar_onmessage ::
  "TopProgressBar \<Rightarrow> ws_message \<Rightarrow> TopProgressBar \<times> topbar_effect list" where
  "topbar_onmessage st NotJson = (st, [])"
| "topbar_onmessage st JsonNull = (st\<lparr>tp_progress := None\<rparr>, [])"
| "topbar_onmessage st (JsonValue data) =
     (let st' = st\<lparr>tp_progress := Some data\<rparr>
      in if bp_type data = Some completion
         then (st'\<lparr>tp_isComplete := True\<rparr>, [SetTimeout_onClose 5000])
         else (st', []))"

text \<open>
  The bar renders nothing under \<open>!isVisible || !progress\<close>; the completion details are
  rendered under \<open>isComplete && progress.result\<close>.
\<close>

definition topbar_success_rate :: "bool \<Rightarrow> TopProgressBar \<Rightarrow> jsnum option" where
  "topbar_success_rate isVisible st =
     (if \<not> isVisible then None
      else
        (case tp_progress st of
           None \<Rightarrow> None
         | Some p \<Rightarrow>
             if tp_isComplete st then
               (case bp_result p of None \<Rightarrow> None | Some r \<Rightarrow> success_rate r)
             else None))"

section \<open>ResultsPage\<close>

subsection \<open>What the react-query hooks return at a render\<close>

record ProxyStatus =
  proxy_enabled :: bool
  proxy_url :: "jsstring option"
  status :: jsstring
  message :: "jsstring option"

text \<open>
  The data of the \<open>proxyStatus\<close> query (undefined while it loads or after it failed) and the
  \<open>isLoading\<close> flags of the two mutations. They are owned by react-query, so the page
  takes them as given at every render.
\<close>

record Hooks =
  proxyStatus :: "ProxyStatus option"
  extractEmails_isLoading :: bool
  extractAllEmails_isLoading :: bool

text \<open>\<open>proxyStatus?.status !== 'connected'\<close> is the negation of this.\<close>

definition proxy_connected :: "Hooks \<Rightarrow> bool" where
  "proxy_connected h \<longleftrightarrow>
     (case proxyStatus h of None \<Rightarrow> False | Some p \<Rightarrow> status p = js ''connected'')"

subsection \<open>State\<close>

text \<open>
  \<open>extractingEmails\<close> is the state of the page. \<open>inflight\<close> is not a field of the
  component: it lists the calls of \<open>searchAPI.extractAuthorEmails\<close> that have been issued and
  have not settled yet, by the article id they were issued for. An article id is optional
  in the interface, and \<open>article.id!\<close> passes an absent id on as it is.
\<close>

record ResultsPage =
  extractingEmails :: "nat option set"
  inflight :: "nat option list"

definition initial_page :: ResultsPage where
  "initial_page = \<lparr>extractingEmails = {}, inflight = []\<rparr>"

subsection \<open>The two extraction buttons\<close>

record button =
  btn_disabled :: bool
  btn_title :: jsstring
  btn_label :: jsstring

text \<open>"a proxy connection is needed to extract addresses", the tooltip of both buttons.\<close>

definition title_need_proxy :: jsstring where
  "title_need_proxy =
     [0x9700, 0x8981, 0x4EE3, 0x7406, 0x8FDE, 0x63A5, 0x624D, 0x80FD, 0x63D0, 0x53D6, 0x90AE,
      0x7BB1]"

text \<open>The labels "extracting...", "extract addresses" and "extract all author addresses".\<close>

definition label_extracting :: jsstring where
  "label_extracting = [0x63D0, 0x53D6, 0x4E2D, 0x2E, 0x2E, 0x2E]"

definition label_extract_emails :: jsstring where
  "label_extract_emails = [0x63D0, 0x53D6, 0x90AE, 0x7BB1]"

definition label_extract_all :: jsstring where
  "label_extract_all = [0x6279, 0x91CF, 0x63D0, 0x53D6, 0x4F5C, 0x8005, 0x90AE, 0x7BB1]"

definition extract_all_button :: "Hooks \<Rightarrow> button" where
  "extract_all_button h =
     \<lparr>btn_disabled = (extractAllEmails_isLoading h \<or> \<not> proxy_connected h),
      btn_title = (if \<not> proxy_connected h then title_need_proxy else []),
      btn_label = (if extractAllEmails_isLoading h then label_extracting else label_extract_all)\<rparr>"

text \<open>
  The button of one article is rendered under
  \<open>article.author_links && article.author_links.length > 0\<close> and
  \<open>!article.author_emails\<close>; an empty array of addresses is truthy.
\<close>

definition has_author_links :: "Article \<Rightarrow> bool" where
  "has_author_links a \<longleftrightarrow> (case author_links a of None \<Rightarrow> False | Some ls \<Rightarrow> 0 < length ls)"

definition extract_button :: "ResultsPage \<Rightarrow> Hooks \<Rightarrow> Article \<Rightarrow> button option" where
  "extract_button st h a =
     (if has_author_links a \<and> author_emails a = None then
        Some \<lparr>btn_disabled =
                (article_id a \<in> extractingEmails st \<or> extractEmails_isLoading h
                 \<or> \<not> proxy_connected h),
              btn_title = (if \<not> proxy_connected h then title_need_proxy else []),
              btn_label =
                (if article_id a \<in> extractingEmails st then label_extracting
                 else label_extract_emails)\<rparr>
      else None)"

text \<open>
  The banner of the proxy status, shown when the query has data: "connected", "not enabled"
  or "connection failed".
\<close>

definition banner_connected :: jsstring where
  "banner_connected = [0x5DF2, 0x8FDE, 0x63A5]"

definition banner_disabled :: jsstring where
  "banner_disabled = [0x672A, 0x542F, 0x7528]"

definition banner_failed :: jsstring where
  "banner_failed = [0x8FDE, 0x63A5, 0x5931, 0x8D25]"

definition proxy_banner :: "Hooks \<Rightarrow> jsstring option" where
  "proxy_banner h =
     (case proxyStatus h of
        None \<Rightarrow> None
      | Some p \<Rightarrow>
          Some (if status p = js ''connected'' then banner_connected
                else if status p = js ''disabled'' then banner_disabled
                else banner_failed))"

subsection \<open>Events of the page\<close>

text \<open>
  The response of \<open>extractAuthorEmails\<close> (its \<open>author_emails\<close>, which the handler reads with
  \<open>?.\<close>) or the message of the error.
\<close>

datatype extract_outcome =
    ExtractSucceeded "AuthorEmail list option"
  | ExtractFailed jsstring

datatype page_effect =
    PostExtractAuthorEmails "nat option"
  | PostExtractAllAuthorEmails
  | ToastExtractDone nat nat
  | ToastExtractFailed jsstring
  | InvalidateSearchDetails

datatype page_event =
    ClickExtract Hooks Article
  | ClickExtractAll Hooks
  | ExtractSettled "nat option" extract_outcome

text \<open>A string is truthy when it is neither null nor empty.\<close>

definition truthy :: "jsstring option \<Rightarrow> bool" where
  "truthy s \<longleftrightarrow> (case s of None \<Rightarrow> False | Some v \<Rightarrow> v \<noteq> [])"

text \<open>\<open>onSuccess\<close> and \<open>onError\<close> of \<open>extractEmailsMutation\<close>.\<close>

fun extract_callbacks :: "extract_outcome \<Rightarrow> page_effect list" where
  "extract_callbacks (ExtractSucceeded data) =
     (let es = (case data of None \<Rightarrow> [] | Some xs \<Rightarrow> xs);
          authorEmailsCount =
            length (filter (\<lambda>e. email_source e \<noteq> js ''pdf_fallback'' \<and> truthy (email e)) es);
          pdfEmailsCount = length (filter (\<lambda>e. email_source e = js ''pdf_fallback'') es)
      in [ToastExtractDone authorEmailsCount pdfEmailsCount, InvalidateSearchDetails])"
| "extract_callbacks (ExtractFailed m) = [ToastExtractFailed m]"

text \<open>
  One event, handled to its end before the next one: a click reaches the mutation only
  through a rendered, enabled button; \<open>onMutate\<close> adds the id and the request is issued;
  \<open>onSettled\<close> removes the id when a request that was issued settles.
\<close>

fun page_step :: "ResultsPage \<Rightarrow> page_event \<Rightarrow> ResultsPage \<times> page_effect list" where
  "page_step st (ClickExtract h a) =
     (case extract_button st h a of
        None \<Rightarrow> (st, [])
      | Some b \<Rightarrow>
          if btn_disabled b then (st, [])
          else (st\<lparr>extractingEmails := insert (article_id a) (extractingEmails st),
                   inflight := inflight st @ [article_id a]\<rparr>,
                [PostExtractAuthorEmails (article_id a)]))"
| "page_step st (ClickExtractAll h) =
     (if btn_disabled (extract_all_button h) then (st, [])
      else (st, [PostExtractAllAuthorEmails]))"
| "page_step st (ExtractSettled i outcome) =
     (if i \<in> set (inflight st) then
        (st\<lparr>extractingEmails := extractingEmails st - {i}, inflight := remove1 i (inflight st)\<rparr>,
         extract_callbacks outcome)
      else (st, []))"

fun page_run :: "ResultsPage \<Rightarrow> page_event list \<Rightarrow> ResultsPage \<times> page_effect list" where
  "page_run st [] = (st, [])"
| "page_run st (e # es) =
     (let (st', fx) = page_step st e; (st'', fx') = page_run st' es in (st'', fx @ fx'))"

subsection \<open>The author rows of an article\<close>

text \<open>
  What is shown to the right of an author's name: the address with its source and a send
  button, the marker of an address taken from the PDF, \<open>None\<close> followed by a source in
  parentheses, or nothing at all.
\<close>

datatype author_cell =
    EmailCell jsstring jsstring
  | PdfCell
  | NoneCell jsstring
  | EmptyCell

definition author_cell :: "Article \<Rightarrow> AuthorLink \<Rightarrow> author_cell" where
  "author_cell a author =
     (case author_emails a of
        None \<Rightarrow> EmptyCell
      | Some es \<Rightarrow>
          (case find (\<lambda>e. ae_name e = al_name author) es of
             Some authorEmail \<Rightarrow>
               if truthy (email authorEmail) \<and> email_source authorEmail \<noteq> js ''pdf_fallback''
                 then EmailCell (case email authorEmail of Some v \<Rightarrow> v | None \<Rightarrow> [])
                        (email_source authorEmail)
               else if email_source authorEmail = js ''pdf_fallback'' then PdfCell
               else NoneCell (email_source authorEmail)
           | None \<Rightarrow> NoneCell (js ''not_extracted'')))"

subsection \<open>The addresses taken from the PDF\<close>

text \<open>
  \<open>new Set(xs)\<close> adds the elements in order, skipping one that is already present, and
  \<open>Array.from\<close> lists the set in insertion order.
\<close>

definition Array_from_Set :: "'a list \<Rightarrow> 'a list" where
  "Array_from_Set xs = foldl (\<lambda>s x. if x \<in> set s then s else s @ [x]) [] xs"

definition pdfFallbackEmails :: "Article \<Rightarrow> AuthorEmail list" where
  "pdfFallbackEmails a =
     (case author_emails a of
        None \<Rightarrow> []
      | Some es \<Rightarrow> filter (\<lambda>e. email_source e = js ''pdf_fallback'') es)"

text \<open>
  \<open>.map(email => pdfFallbackEmails.find(e => e.email === email)).filter(Boolean)\<close>:
  \<open>find\<close> yields undefined when nothing matches, and \<open>filter(Boolean)\<close> drops it.
\<close>

definition uniquePdfFallbackEmails :: "Article \<Rightarrow> AuthorEmail list" where
  "uniquePdfFallbackEmails a =
     List.map_filter (\<lambda>m. find (\<lambda>e. email e = m) (pdfFallbackEmails a))
       (Array_from_Set (map email (pdfFallbackEmails a)))"

subsection \<open>The components that the page mounts\<close>

text \<open>
  The components of the front end that \<open>ResultsPage\<close> can render. While the search loads
  the page returns a spinner only. Afterwards it renders the chart when there are articles,
  \<open>EmailSender\<close> under \<open>selectedEmailData\<close>, \<open>BatchEmailSender\<close> under
  \<open>showBatchEmailSender && searchId\<close>, and \<open>TopProgressBar\<close> always. The import of
  \<open>PDFExtractionProgress\<close> and its element are commented out in the page, and no other
  source imports the dialog.
\<close>

datatype component =
    CitationChartComponent
  | EmailSenderComponent
  | BatchEmailSenderComponent
  | TopProgressBarComponent
  | PDFExtractionProgressComponent

record ResultsRender =
  rr_loading :: bool
  rr_has_articles :: bool
  rr_selectedEmailData :: bool
  rr_showBatchEmailSender :: bool
  rr_searchId :: bool

definition mounted :: "ResultsRender \<Rightarrow> component list" where
  "mounted r =
     (if rr_loading r then []
      else (if rr_has_articles r then [CitationChartComponent] else [])
           @ (if rr_selectedEmailData r then [EmailSenderComponent] else [])
           @ (if rr_showBatchEmailSender r \<and> rr_searchId r then [BatchEmailSenderComponent] else [])
           @ [TopProgressBarComponent])"

subsection \<open>The invariant of the extraction requests\<close>

text \<open>
  No article id is in flight twice, and the ids in flight are those of \<open>extractingEmails\<close>.
\<close>

definition page_inv :: "ResultsPage \<Rightarrow> bool" where
  "page_inv st \<longleftrightarrow> distinct (inflight st) \<and> set (inflight st) = extractingEmails st"

section \<open>Receiving the messages of a batch\<close>

text \<open>
  The two observers of the batch web socket, fed the messages in the order of arrival.
  The top bar also collects the timers it sets.
\<close>

definition sender_receive :: "BatchEmailSender \<Rightarrow> ws_message list \<Rightarrow> BatchEmailSender" where
  "sender_receive st msgs = foldl sender_onmessage st msgs"

fun topbar_receive ::
  "TopProgressBar \<Rightarrow> ws_message list \<Rightarrow> TopProgressBar \<times> topbar_effect list" where
  "topbar_receive st [] = (st, [])"
| "topbar_receive st (m # ms) =
     (let (st', fx) = topbar_onmessage st m; (st'', fx') = topbar_receive st' ms
      in (st'', fx @ fx'))"

text \<open>The arguments of the calls of \<open>setProgress\<close> that a list of messages leads to.\<close>

fun shown :: "ws_message list \<Rightarrow> BatchProgress option list" where
  "shown [] = []"
| "shown (NotJson # ms) = shown ms"
| "shown (JsonNull # ms) = None # shown ms"
| "shown (JsonValue data # ms) = Some data # shown ms"

text \<open>The messages for which \<open>data.type === 'completion'\<close> holds.\<close>

fun completes :: "ws_message \<Rightarrow> bool" where
  "completes (JsonValue data) = (bp_type data = Some completion)"
| "completes m = False"

section \<open>PDFExtractionProgress\<close>

datatype step_status = Pending | InProgress | Completed | Failed

record PDFExtractionStep =
  step_id :: jsstring
  step_title :: jsstring
  step_status :: step_status
  step_description :: "jsstring option"

record ExtractionResult =
  success :: bool
  result_message :: jsstring

record PDFExtractionProgress =
  steps :: "PDFExtractionStep list"
  currentStep :: nat
  isExtracting :: bool
  extractionResult :: "ExtractionResult option"

text \<open>
  The seven steps of the initial state, all pending. Their titles and descriptions read:
  start of the PDF address extraction (initialising the extraction); getting the PDF link
  (from Google Scholar); downloading the PDF file; extracting the PDF text (of the first
  page); looking for addresses (in the PDF text); matching authors and addresses;
  finishing the extraction (saving the result).
\<close>

definition initial_steps :: "PDFExtractionStep list" where
  "initial_steps =
     [\<lparr>step_id = js ''start'',
       step_title = [0x5F00, 0x59CB, 0x50, 0x44, 0x46, 0x90AE, 0x7BB1, 0x63D0, 0x53D6],
       step_status = Pending,
       step_description = Some [0x521D, 0x59CB, 0x5316, 0x50, 0x44, 0x46, 0x90AE, 0x7BB1, 0x63D0,
         0x53D6, 0x8FC7, 0x7A0B]\<rparr>,
      \<lparr>step_id = js ''get_pdf_links'',
       step_title = [0x83B7, 0x53D6, 0x50, 0x44, 0x46, 0x94FE, 0x63A5],
       step_status = Pending,
       step_description = Some ([0x4ECE] @ js ''Google Scholar'' @ [0x83B7, 0x53D6, 0x8BBA, 0x6587,
         0x50, 0x44, 0x46, 0x94FE, 0x63A5])\<rparr>,
      \<lparr>step_id = js ''download_pdf'',
       step_title = [0x4E0B, 0x8F7D, 0x50, 0x44, 0x46, 0x6587, 0x4EF6],
       step_status = Pending,
       step_description = Some [0x4E0B, 0x8F7D, 0x8BBA, 0x6587, 0x50, 0x44, 0x46, 0x6587, 0x4EF6]\<rparr>,
      \<lparr>step_id = js ''extract_text'',
       step_title = [0x63D0, 0x53D6, 0x50, 0x44, 0x46, 0x6587, 0x672C],
       step_status = Pending,
       step_description = Some [0x4ECE, 0x50, 0x44, 0x46, 0x7B2C, 0x4E00, 0x9875, 0x63D0, 0x53D6,
         0x6587, 0x672C, 0x5185, 0x5BB9]\<rparr>,
      \<lparr>step_id = js ''find_emails'',
       step_title = [0x67E5, 0x627E, 0x90AE, 0x7BB1, 0x5730, 0x5740],
       step_status = Pending,
       step_description = Some [0x5728, 0x50, 0x44, 0x46, 0x6587, 0x672C, 0x4E2D, 0x67E5, 0x627E,
         0x4F5C, 0x8005, 0x90AE, 0x7BB1]\<rparr>,
      \<lparr>step_id = js ''match_authors'',
       step_title = [0x5339, 0x914D, 0x4F5C, 0x8005, 0x90AE, 0x7BB1],
       step_status = Pending,
       step_description = Some [0x5C06, 0x627E, 0x5230, 0x7684, 0x90AE, 0x7BB1, 0x4E0E, 0x4F5C,
         0x8005, 0x59D3, 0x540D, 0x5339, 0x914D]\<rparr>,
      \<lparr>step_id = js ''complete'',
       step_title = [0x5B8C, 0x6210, 0x63D0, 0x53D6],
       step_status = Pending,
       step_description = Some [0x4FDD, 0x5B58, 0x63D0, 0x53D6, 0x7ED3, 0x679C]\<rparr>]"

definition initial_progress :: PDFExtractionProgress where
  "initial_progress =
     \<lparr>steps = initial_steps, currentStep = 0, isExtracting = True, extractionResult = None\<rparr>"

text \<open>"2 author addresses extracted", the message of the result.\<close>

definition msg_extracted_two :: jsstring where
  "msg_extracted_two =
     [0x6210, 0x529F, 0x63D0, 0x53D6, 0x32, 0x4E2A, 0x4F5C, 0x8005, 0x90AE, 0x7BB1]"

text \<open>
  The updates of iteration \<open>i\<close> of the loop of \<open>simulateProgress\<close>, before it waits for
  its timer:
  \<open>prev.map((step, idx) => idx < i ? completed : idx === i ? in_progress : step)\<close>.
\<close>

definition mark_steps :: "nat \<Rightarrow> PDFExtractionStep list \<Rightarrow> PDFExtractionStep list" where
  "mark_steps i prev =
     map (\<lambda>(idx, step).
            if idx < i then step\<lparr>step_status := Completed\<rparr>
            else if idx = i then step\<lparr>step_status := InProgress\<rparr>
            else step)
       (enumerate 0 prev)"

definition iteration :: "nat \<Rightarrow> PDFExtractionProgress \<Rightarrow> PDFExtractionProgress" where
  "iteration i st = st\<lparr>steps := mark_steps i (steps st), currentStep := i\<rparr>"

text \<open>The updates after the loop.\<close>

definition finish :: "PDFExtractionProgress \<Rightarrow> PDFExtractionProgress" where
  "finish st =
     st\<lparr>steps := map (\<lambda>step. step\<lparr>step_status := Completed\<rparr>) (steps st),
        isExtracting := False,
        extractionResult := Some \<lparr>success = True, result_message = msg_extracted_two\<rparr>\<rparr>"

text \<open>
  The loop \<open>for (let i = 0; i < steps.length; i++)\<close>, with \<open>n\<close> iterations left: the
  states that are displayed, one for each wait on a timer of 2000 ms plus a random part of
  up to 3000 ms, and the state after the loop.
\<close>

fun simulate_loop :: "nat \<Rightarrow> nat \<Rightarrow> PDFExtractionProgress \<Rightarrow> PDFExtractionProgress list" where
  "simulate_loop i 0 st = [finish st]"
| "simulate_loop i (Suc n) st = (let st' = iteration i st in st' # simulate_loop (Suc i) n st')"

text \<open>The effect on \<open>isOpen\<close>: nothing when the dialog is closed.\<close>

definition simulateProgress :: "bool \<Rightarrow> PDFExtractionProgress \<Rightarrow> PDFExtractionProgress list" where
  "simulateProgress isOpen st = (if \<not> isOpen then [] else simulate_loop 0 (length (steps st)) st)"

text \<open>
  Whether the result that a view displays is the outcome of the extraction request: it
  shows a success exactly when the request succeeded.
\<close>

definition shows_outcome :: "PDFExtractionProgress \<Rightarrow> extract_outcome \<Rightarrow> bool" where
  "shows_outcome view outcome =
     (case extractionResult view of
        None \<Rightarrow> False
      | Some r \<Rightarrow> success r = (case outcome of ExtractSucceeded _ \<Rightarrow> True | ExtractFailed _ \<Rightarrow> False))"

section \<open>EmailSender\<close>

record EmailSenderProps =
  es_isOpen :: bool
  authorEmail :: jsstring
  authorName :: jsstring
  paperTitle :: jsstring
  paperVenue :: "jsstring option"
  paperYear :: "int option"
  paperCitations :: "int option"

record EmailPreview =
  pv_success :: bool
  html_content :: jsstring

record EmailConfig =
  valid :: bool
  config_message :: jsstring

record EmailSender =
  es_subject :: jsstring
  preview :: "EmailPreview option"
  isLoadingPreview :: bool
  isSending :: bool
  showPreview :: bool
  emailConfig :: "EmailConfig option"

text \<open>The bodies of \<open>searchAPI.previewEmail\<close> and \<open>searchAPI.sendEmail\<close>.\<close>

record PreviewRequest =
  author_name :: jsstring
  paper_title :: jsstring
  paper_venue :: "jsstring option"
  paper_year :: "int option"
  paper_citations :: "int option"

record SendRequest =
  to_email :: jsstring
  sr_subject :: jsstring
  sr_author_name :: jsstring
  sr_paper_title :: jsstring
  sr_paper_venue :: "jsstring option"
  sr_paper_year :: "int option"
  sr_paper_citations :: "int option"

datatype email_effect =
    ToastEmailError jsstring
  | PostPreviewEmail PreviewRequest
  | PostSendEmail SendRequest

text \<open>
  The error toasts: "necessary information is missing", "please fill in all the
  information" and "the mail configuration is invalid, no mail can be sent".
\<close>

definition msg_missing_information :: jsstring where
  "msg_missing_information = [0x7F3A, 0x5C11, 0x5FC5, 0x8981, 0x4FE1, 0x606F]"

definition msg_fill_in_all :: jsstring where
  "msg_fill_in_all = [0x8BF7, 0x586B, 0x5199, 0x5B8C, 0x6574, 0x4FE1, 0x606F]"

definition msg_config_invalid :: jsstring where
  "msg_config_invalid =
     [0x90AE, 0x4EF6, 0x914D, 0x7F6E, 0x65E0, 0x6548, 0xFF0C, 0x65E0, 0x6CD5, 0x53D1, 0x9001,
      0x90AE, 0x4EF6]"

text \<open>\<open>generatePreview\<close> and \<open>sendEmail\<close> up to their request; an empty string is falsy.\<close>

definition generatePreview ::
  "EmailSenderProps \<Rightarrow> EmailSender \<Rightarrow> EmailSender \<times> email_effect list" where
  "generatePreview props st =
     (if authorName props = [] \<or> paperTitle props = []
        then (st, [ToastEmailError msg_missing_information])
      else
        (st\<lparr>isLoadingPreview := True\<rparr>,
         [PostPreviewEmail \<lparr>author_name = authorName props, paper_title = paperTitle props,
            paper_venue = paperVenue props, paper_year = paperYear props,
            paper_citations = paperCitations props\<rparr>]))"

definition sendEmail ::
  "EmailSenderProps \<Rightarrow> EmailSender \<Rightarrow> EmailSender \<times> email_effect list" where
  "sendEmail props st =
     (if authorEmail props = [] \<or> es_subject st = [] \<or> authorName props = []
         \<or> paperTitle props = []
        then (st, [ToastEmailError msg_fill_in_all])
      else if \<not> (case emailConfig st of None \<Rightarrow> False | Some c \<Rightarrow> valid c)
        then (st, [ToastEmailError msg_config_invalid])
      else
        (st\<lparr>isSending := True\<rparr>,
         [PostSendEmail \<lparr>to_email = authorEmail props, sr_subject = es_subject st,
            sr_author_name = authorName props, sr_paper_title = paperTitle props,
            sr_paper_venue = paperVenue props, sr_paper_year = paperYear props,
            sr_paper_citations = paperCitations props\<rparr>]))"

section \<open>The back end of the pipeline\<close>

text \<open>
  The front-end sources call the extraction worker and the batch dispatcher over HTTP, and
  receive the events of the progress channel on the web socket; the code of the three is not
  among the sources. This section models them from the specification, sections 3, 4.1, 4.5,
  5 and 6.
\<close>

subsection \<open>Data model\<close>

text \<open>Modelled from the spec: the enum \<open>source\<close> of an \<open>AuthorEmail\<close> (section 3).\<close>

datatype source = Homepage | DocumentFallback | NotExtracted

text \<open>
  Modelled from the spec: \<open>AuthorEmail {name, email: optional string, source}\<close> (section 3),
  as the worker records it and the dispatcher reads it.
\<close>

record ExtractedEmail =
  x_name :: jsstring
  x_email :: "jsstring option"
  x_source :: source

text \<open>Modelled from the spec: \<open>AuthorLink{name, homepage_url}\<close> (section 3).\<close>

record HomepageLink =
  h_name :: jsstring
  homepage_url :: jsstring

subsection \<open>Extraction worker\<close>

text \<open>
  Modelled from the spec: the result contract of a fetch that the worker consumes,
  success, empty or error (section 1).
\<close>

datatype 'a fetched = Found 'a | Nothing | FetchError

text \<open>Modelled from the spec: \<open>NetworkUnavailable\<close> of the error taxonomy (section 7).\<close>

datatype extract_error = NetworkUnavailable

text \<open>Modelled from the spec: the terminal states of \<open>ExtractionState\<close> (section 3).\<close>

datatype terminal_state = Done | ExtractionFailed

text \<open>
  Modelled from the spec: the result \<open>{emails: [AuthorEmail], terminal_state}\<close> of
  \<open>extract\<close> (section 4.1).
\<close>

record Extraction =
  emails :: "ExtractedEmail list"
  terminal :: terminal_state

text \<open>
  Modelled from the spec: the entry of one author (section 4.1). An address found on the
  home page is recorded with \<open>source = homepage\<close>; otherwise an address of the document
  that was matched to the author, with \<open>source = document_fallback\<close>; an author with no
  address from either path is recorded as \<open>{email: null, source: not_extracted}\<close>. The
  document classifier yields pairs of an author name, or none, and an address (section 9).
\<close>

definition author_entry ::
  "(HomepageLink \<Rightarrow> jsstring fetched) \<Rightarrow> (jsstring option \<times> jsstring) list \<Rightarrow> HomepageLink
     \<Rightarrow> ExtractedEmail" where
  "author_entry homepage_fetch pairs l =
     (case homepage_fetch l of
        Found e \<Rightarrow> \<lparr>x_name = h_name l, x_email = Some e, x_source = Homepage\<rparr>
      | _ \<Rightarrow>
          (case find (\<lambda>(n, e). n = Some (h_name l)) pairs of
             Some (n, e) \<Rightarrow> \<lparr>x_name = h_name l, x_email = Some e, x_source = DocumentFallback\<rparr>
           | None \<Rightarrow> \<lparr>x_name = h_name l, x_email = None, x_source = NotExtracted\<rparr>))"

text \<open>Modelled from the spec: an author is unresolved after the home page pass (section 4.1).\<close>

definition unresolved :: "(HomepageLink \<Rightarrow> jsstring fetched) \<Rightarrow> HomepageLink \<Rightarrow> bool" where
  "unresolved homepage_fetch l = (case homepage_fetch l of Found e \<Rightarrow> False | _ \<Rightarrow> True)"

text \<open>
  Modelled from the spec: an address of the document that no author matched is labelled a
  paper-level fallback address, \<open>source = document_fallback\<close> (section 4.1). The spec gives
  such an entry no name; it is empty here.
\<close>

definition paper_level :: "(jsstring option \<times> jsstring) list \<Rightarrow> ExtractedEmail list" where
  "paper_level pairs =
     map (\<lambda>(n, e). \<lparr>x_name = [], x_email = Some e, x_source = DocumentFallback\<rparr>)
       (filter (\<lambda>(n, e). n = None) pairs)"

text \<open>
  Modelled from the spec: the document fallback is attempted once for the article, and only
  if an author is still unresolved after the home page pass (section 4.1).
\<close>

definition fallback_result ::
  "(HomepageLink \<Rightarrow> jsstring fetched) \<Rightarrow> (jsstring option \<times> jsstring) list fetched
     \<Rightarrow> HomepageLink list \<Rightarrow> (jsstring option \<times> jsstring) list fetched" where
  "fallback_result homepage_fetch document links =
     (if \<exists>l \<in> set links. unresolved homepage_fetch l then document else Nothing)"

text \<open>
  Modelled from the spec: the addresses that the fallback discovered, none when it was not
  attempted, found nothing or failed; a fetch failure is not fatal (section 4.1).
\<close>

definition document_pairs ::
  "(HomepageLink \<Rightarrow> jsstring fetched) \<Rightarrow> (jsstring option \<times> jsstring) list fetched
     \<Rightarrow> HomepageLink list \<Rightarrow> (jsstring option \<times> jsstring) list" where
  "document_pairs homepage_fetch document links =
     (case fallback_result homepage_fetch document links of Found ps \<Rightarrow> ps | _ \<Rightarrow> [])"

text \<open>
  Modelled from the spec: \<open>extract(article)\<close> (section 4.1), for an article given by its
  author links. The worker fails fast when the network client reports the proxy
  unavailable. Otherwise it fetches every home page, tries the document fallback, and
  records one entry for each author, followed by the paper-level addresses. It returns
  \<open>failed\<close> only if every source has an error.
\<close>

definition extract_article ::
  "bool \<Rightarrow> (HomepageLink \<Rightarrow> jsstring fetched) \<Rightarrow> (jsstring option \<times> jsstring) list fetched
     \<Rightarrow> HomepageLink list \<Rightarrow> extract_error + Extraction" where
  "extract_article network_available homepage_fetch document links =
     (if \<not> network_available then Inl NetworkUnavailable
      else
        (let pairs = document_pairs homepage_fetch document links
         in Inr \<lparr>emails = map (author_entry homepage_fetch pairs) links @ paper_level pairs,
                 terminal =
                   (if (\<forall>l \<in> set links. homepage_fetch l = FetchError)
                       \<and> fallback_result homepage_fetch document links = FetchError
                    then ExtractionFailed else Done)\<rparr>))"

subsection \<open>Batch dispatcher\<close>

text \<open>
  Modelled from the spec: an entry passes the two include flags of a batch (section 4.5).
\<close>

definition permitted :: "bool \<Rightarrow> bool \<Rightarrow> ExtractedEmail \<Rightarrow> bool" where
  "permitted include_homepage_emails include_fallback_emails e \<longleftrightarrow>
     (x_source e = Homepage \<and> include_homepage_emails)
     \<or> (x_source e = DocumentFallback \<and> include_fallback_emails)"

text \<open>
  Modelled from the spec: duplicate addresses are collapsed to one, in a stable order:
  the first occurrence stays (section 4.5).
\<close>

definition collapse_duplicates :: "'a list \<Rightarrow> 'a list" where
  "collapse_duplicates xs = rev (remdups (rev xs))"

text \<open>
  Modelled from the spec: the recipient set is the union of the entries of the articles,
  filtered by the two include flags, with null-email entries excluded and duplicate
  addresses collapsed (section 4.5). The articles are given by their entries, in article
  order, then author order.
\<close>

definition recipient_set :: "bool \<Rightarrow> bool \<Rightarrow> ExtractedEmail list list \<Rightarrow> jsstring list" where
  "recipient_set include_homepage_emails include_fallback_emails articles =
     collapse_duplicates
       (List.map_filter x_email
          (filter (permitted include_homepage_emails include_fallback_emails) (concat articles)))"

text \<open>
  Modelled from the spec: the answers of the mail gateway (section 6) and the outcome of
  one recipient (section 4.5).
\<close>

datatype send_result = Accepted | TransientError | PermanentError

datatype outcome = Sent | NotSent | Skipped

text \<open>
  Modelled from the spec: delivery to one recipient with a bounded number of attempts
  (section 4.5). The gateway answers the \<open>k\<close>-th attempt for an address; a transient
  failure is retried while attempts are left, a permanent one is not.
\<close>

fun deliver :: "(jsstring \<Rightarrow> nat \<Rightarrow> send_result) \<Rightarrow> jsstring \<Rightarrow> nat \<Rightarrow> nat \<Rightarrow> bool" where
  "deliver gateway to k 0 = False"
| "deliver gateway to k (Suc attempts_left) =
     (case gateway to k of
        Accepted \<Rightarrow> True
      | PermanentError \<Rightarrow> False
      | TransientError \<Rightarrow> deliver gateway to (Suc k) attempts_left)"

text \<open>
  Modelled from the spec: what the dispatcher mutates during a run (sections 3 and 4.5):
  the contacted registry and the counters of the BatchJob.
\<close>

record BatchRun =
  registry :: "jsstring list"
  processed :: nat
  sent :: nat
  failed_count :: nat

text \<open>
  Modelled from the spec: one recipient (section 4.5). A recipient in the registry is
  skipped and counts as neither sent nor failed; a delivered one is recorded in the
  registry and counted as sent; otherwise it is counted as failed.
\<close>

definition process_recipient ::
  "(jsstring \<Rightarrow> nat \<Rightarrow> send_result) \<Rightarrow> nat \<Rightarrow> BatchRun \<Rightarrow> jsstring \<Rightarrow> outcome \<times> BatchRun" where
  "process_recipient gateway attempt_cap run r =
     (if r \<in> set (registry run) then (Skipped, run\<lparr>processed := Suc (processed run)\<rparr>)
      else if deliver gateway r 0 attempt_cap
        then (Sent, run\<lparr>registry := registry run @ [r], processed := Suc (processed run),
                         sent := Suc (sent run)\<rparr>)
      else (NotSent, run\<lparr>processed := Suc (processed run),
                          failed_count := Suc (failed_count run)\<rparr>))"

text \<open>
  Modelled from the spec: \<open>ProgressEvent\<close> (section 3): a progress event with percent,
  total, sent and failed, or a completion event with the status and the final total, sent
  and failed. The texts of a progress event (step, title, description) are not fixed by
  the spec and are left out.
\<close>

datatype ProgressEvent =
    ProgressEv nat nat nat nat
  | CompletionEv batch_status nat nat nat

fun is_completion :: "ProgressEvent \<Rightarrow> bool" where
  "is_completion (CompletionEv s t n f) = True"
| "is_completion (ProgressEv p t n f) = False"

text \<open>
  Modelled from the spec: percent-complete, \<open>processed / total * 100\<close>, rounded
  (section 4.5); the nearest integer, a tie going up. The dispatcher evaluates it after a
  recipient, so with a total of at least one.
\<close>

definition percent :: "nat \<Rightarrow> nat \<Rightarrow> nat" where
  "percent p tot = (200 * p + tot) div (2 * tot)"

text \<open>
  Modelled from the spec: the loop over the recipients, in order; after every recipient a
  progress event with the updated counters (section 4.5). It yields the recipients with
  their outcomes, the events, and the run at the end.
\<close>

fun dispatch_loop ::
  "(jsstring \<Rightarrow> nat \<Rightarrow> send_result) \<Rightarrow> nat \<Rightarrow> nat \<Rightarrow> BatchRun \<Rightarrow> jsstring list
     \<Rightarrow> (jsstring \<times> outcome) list \<times> ProgressEvent list \<times> BatchRun" where
  "dispatch_loop gateway attempt_cap tot run [] = ([], [], run)"
| "dispatch_loop gateway attempt_cap tot run (r # rs) =
     (let (out, run') = process_recipient gateway attempt_cap run r;
          ev = ProgressEv (percent (processed run') tot) tot (sent run') (failed_count run');
          (outs, evs, run'') = dispatch_loop gateway attempt_cap tot run' rs
      in ((r, out) # outs, ev # evs, run''))"

text \<open>
  Modelled from the spec: the event stream of one BatchJob (section 4.5). After the last
  recipient exactly one completion event, with the final counters and the status
  \<open>completed\<close>; the status is \<open>failed\<close> only if the batch could not proceed at all, before
  any send attempt.
\<close>

definition dispatch ::
  "bool \<Rightarrow> (jsstring \<Rightarrow> nat \<Rightarrow> send_result) \<Rightarrow> nat \<Rightarrow> jsstring list \<Rightarrow> jsstring list
     \<Rightarrow> ProgressEvent list" where
  "dispatch can_proceed gateway attempt_cap contacted recipients =
     (let tot = length recipients
      in if \<not> can_proceed then [CompletionEv failed tot 0 0]
         else
           (let (outs, evs, run) =
                  dispatch_loop gateway attempt_cap tot
                    \<lparr>registry = contacted, processed = 0, sent = 0, failed_count = 0\<rparr> recipients
            in evs @ [CompletionEv completed tot (sent run) (failed_count run)]))"

text \<open>
  Modelled from the spec: the outcomes of the recipients of a batch that proceeds, in the
  order of processing (section 4.5).
\<close>

definition outcomes ::
  "(jsstring \<Rightarrow> nat \<Rightarrow> send_result) \<Rightarrow> nat \<Rightarrow> jsstring list \<Rightarrow> jsstring list
     \<Rightarrow> (jsstring \<times> outcome) list" where
  "outcomes gateway attempt_cap contacted recipients =
     fst (dispatch_loop gateway attempt_cap (length recipients)
            \<lparr>registry = contacted, processed = 0, sent = 0, failed_count = 0\<rparr> recipients)"

text \<open>
  Modelled from the spec: an event as the message that the observers parse. The fields are
  those of the interface \<open>BatchProgress\<close>: a progress event carries percent, total, sent
  and failed, a completion event its status and result; the texts are empty.
\<close>

fun wire :: "ProgressEvent \<Rightarrow> BatchProgress" where
  "wire (ProgressEv p t n f) =
     \<lparr>bp_type = Some progress, bp_step = Some [], bp_title = Some [], bp_description = Some [],
      bp_progress = Some (int p), bp_total = Some (int t), bp_sent = Some (int n),
      bp_failed = Some (int f), bp_status = None, bp_result = None\<rparr>"
| "wire (CompletionEv s t n f) =
     \<lparr>bp_type = Some completion, bp_step = Some [], bp_title = Some [],
      bp_description = Some [],
      bp_progress = None, bp_total = None, bp_sent = None, bp_failed = None,
      bp_status = Some s,
      bp_result = Some \<lparr>r_total = int t, r_sent = int n, r_failed = int f\<rparr>\<rparr>"

text \<open>
  Modelled from the spec: the messages of a BatchJob in the order in which the progress
  channel delivers them to an observer (section 5).
\<close>

definition batch_messages ::
  "bool \<Rightarrow> (jsstring \<Rightarrow> nat \<Rightarrow> send_result) \<Rightarrow> nat \<Rightarrow> jsstring list \<Rightarrow> jsstring list
     \<Rightarrow> ws_message list" where
  "batch_messages can_proceed gateway attempt_cap contacted recipients =
     map (\<lambda>e. JsonValue (wire e)) (dispatch can_proceed gateway attempt_cap contacted recipients)"

text \<open>
  Modelled from the spec: the percent-complete that an event reports; a completion event
  reports none (section 3).
\<close>

fun ev_percent :: "ProgressEvent \<Rightarrow> nat option" where
  "ev_percent (ProgressEv p t n f) = Some p"
| "ev_percent (CompletionEv s t n f) = None"

subsection \<open>Progress channel\<close>

text \<open>
  Modelled from the spec: the state of a BatchJob after its first \<open>k\<close> recipients
  (sections 3 and 4.5).
\<close>

definition run_after ::
  "(jsstring \<Rightarrow> nat \<Rightarrow> send_result) \<Rightarrow> nat \<Rightarrow> jsstring list \<Rightarrow> jsstring list \<Rightarrow> nat \<Rightarrow> BatchRun" where
  "run_after gateway attempt_cap contacted recipients k =
     snd (snd (dispatch_loop gateway attempt_cap (length recipients)
                 \<lparr>registry = contacted, processed = 0, sent = 0, failed_count = 0\<rparr>
                 (take k recipients)))"

text \<open>
  Modelled from the spec: the current snapshot that an observer receives on registration,
  the total and the sent and failed counts so far (sections 5 and 6). The interface of the
  front end has the two types of message only; the snapshot of a running job is a progress
  message, without a percentage.
\<close>

definition snapshot ::
  "(jsstring \<Rightarrow> nat \<Rightarrow> send_result) \<Rightarrow> nat \<Rightarrow> jsstring list \<Rightarrow> jsstring list \<Rightarrow> nat \<Rightarrow> BatchProgress" where
  "snapshot gateway attempt_cap contacted recipients k =
     (let run = run_after gateway attempt_cap contacted recipients k
      in \<lparr>bp_type = Some progress, bp_step = Some [], bp_title = Some [], bp_description = Some [],
          bp_progress = None, bp_total = Some (int (length recipients)),
          bp_sent = Some (int (sent run)), bp_failed = Some (int (failed_count run)),
          bp_status = None, bp_result = None\<rparr>)"

text \<open>
  Modelled from the spec: what the channel delivers to an observer that registers after
  \<open>k\<close> events of the job: the snapshot at once, then all subsequent events in their order;
  the earlier events are not replayed (sections 5 and 6).
\<close>

definition delivered ::
  "bool \<Rightarrow> (jsstring \<Rightarrow> nat \<Rightarrow> send_result) \<Rightarrow> nat \<Rightarrow> jsstring list \<Rightarrow> jsstring list \<Rightarrow> nat
     \<Rightarrow> ws_message list" where
  "delivered can_proceed gateway attempt_cap contacted recipients k =
     JsonValue (snapshot gateway attempt_cap contacted recipients k)
     # drop k (batch_messages can_proceed gateway attempt_cap contacted recipients)"

text \<open>
  Modelled from the spec: the number of recipients with a given outcome, the sum of the
  per-recipient outcomes that the counters stand for (section 8).
\<close>

definition count_outcome :: "outcome \<Rightarrow> (jsstring \<times> outcome) list \<Rightarrow> nat" where
  "count_outcome out outs = length (filter (\<lambda>(r, x). x = out) outs)"

section \<open>Example data\<close>

text \<open>Concrete values at which the properties below are instantiated.\<close>

definition example_completion :: BatchProgress where
  "example_completion =
     \<lparr>bp_type = Some completion, bp_step = Some [], bp_title = Some [],
      bp_description = Some [],
      bp_progress = Some 100, bp_total = Some 3, bp_sent = Some 2, bp_failed = Some 1,
      bp_status = Some completed,
      bp_result = Some \<lparr>r_total = 3, r_sent = 2, r_failed = 1\<rparr>\<rparr>"

definition example_connected :: Hooks where
  "example_connected =
     \<lparr>proxyStatus = Some \<lparr>proxy_enabled = True, proxy_url = None, status = js ''connected'',
        message = None\<rparr>,
      extractEmails_isLoading = False, extractAllEmails_isLoading = False\<rparr>"

definition example_disabled :: Hooks where
  "example_disabled =
     \<lparr>proxyStatus = Some \<lparr>proxy_enabled = False, proxy_url = None, status = js ''disabled'',
        message = None\<rparr>,
      extractEmails_isLoading = False, extractAllEmails_isLoading = False\<rparr>"

definition example_article :: Article where
  "example_article =
     \<lparr>article_id = Some 5, title = js ''Distillation'', authors = Some (js ''A Author, B Writer''),
      author_links = Some [\<lparr>al_name = js ''A Author'', scholar_url = js ''https://s/a''\<rparr>,
                           \<lparr>al_name = js ''B Writer'', scholar_url = js ''https://s/b''\<rparr>],
      author_emails = None, pdf_fallback_emails = None, venue = None, publisher = None,
      year = Some 2024, citations = 12, citations_per_year = 6, description = None, url = None,
      created_at = None\<rparr>"

definition example_sender :: BatchEmailSender where
  "example_sender =
     \<lparr>subject = js ''Hello'', includeAuthorEmails = True, includePdfEmails = True,
      isLoading = True, progress_of = None, isComplete = False\<rparr>"

text \<open>
  A gateway that accepts one address at the second attempt and rejects every other address
  for good.
\<close>

definition example_gateway :: "jsstring \<Rightarrow> nat \<Rightarrow> send_result" where
  "example_gateway to k =
     (if to = js ''a@x.org'' then (if k = 0 then TransientError else Accepted)
      else PermanentError)"

text \<open>
  The entries of two articles as the worker records them, and an article of the results
  page after its extraction.
\<close>

definition example_entries :: "ExtractedEmail list list" where
  "example_entries =
     [[\<lparr>x_name = js ''A Author'', x_email = Some (js ''a@x.org''), x_source = Homepage\<rparr>,
       \<lparr>x_name = js ''B Writer'', x_email = None, x_source = NotExtracted\<rparr>],
      [\<lparr>x_name = js ''C Third'', x_email = Some (js ''a@x.org''), x_source = DocumentFallback\<rparr>,
       \<lparr>x_name = [], x_email = Some (js ''b@y.org''), x_source = DocumentFallback\<rparr>]]"

definition example_extracted :: Article where
  "example_extracted =
     example_article\<lparr>author_emails := Some
       [\<lparr>ae_name = js ''A Author'', email = Some (js ''a@x.org''), email_source = js ''homepage'',
          homepage = None\<rparr>,
        \<lparr>ae_name = js ''C Third'', email = Some (js ''p@q.org''), email_source = js ''pdf_fallback'',
          homepage = None\<rparr>,
        \<lparr>ae_name = js ''D Fourth'', email = Some (js ''p@q.org''), email_source = js ''pdf_fallback'',
          homepage = None\<rparr>,
        \<lparr>ae_name = js ''B Writer'', email = None, email_source = js ''not_extracted'',
          homepage = None\<rparr>]\<rparr>"

text \<open>
  Three authors: the home page of the first has an address, that of the second has none,
  the third cannot be fetched; the document has an address of the third author and one
  that matches no author.
\<close>

definition example_links :: "HomepageLink list" where
  "example_links =
     [\<lparr>h_name = js ''A Author'', homepage_url = js ''https://x.org/a''\<rparr>,
      \<lparr>h_name = js ''B Writer'', homepage_url = js ''https://y.org/b''\<rparr>,
      \<lparr>h_name = js ''C Third'', homepage_url = js ''https://z.org/c''\<rparr>]"

definition example_homepage :: "HomepageLink \<Rightarrow> jsstring fetched" where
  "example_homepage l =
     (if h_name l = js ''A Author'' then Found (js ''a@x.org'')
      else if h_name l = js ''B Writer'' then Nothing
      else FetchError)"

definition example_document :: "(jsstring option \<times> jsstring) list fetched" where
  "example_document = Found [(Some (js ''C Third''), js ''c@z.org''), (None, js ''p@q.org'')]"

text \<open>A results page with its articles loaded and the batch dialog open.\<close>

definition example_render_state :: ResultsRender where
  "example_render_state =
     \<lparr>rr_loading = False, rr_has_articles = True, rr_selectedEmailData = False,
      rr_showBatchEmailSender = True, rr_searchId = True\<rparr>"

section \<open>Properties\<close>

subsection \<open>Strings\<close>

lemma all_dropWhile_iff: "(\<forall>x \<in> set (dropWhile P xs). P x) \<longleftrightarrow> (\<forall>x \<in> set xs. P x)"
  by (induction xs) auto

lemma trim_empty_iff: "trim s = [] \<longleftrightarrow> (\<forall>c \<in> set s. isWhiteSpace c)"
  by (simp add: trim_def dropWhile_eq_Nil_conv all_dropWhile_iff)

subsection \<open>The search form\<close>

text \<open>
  C9. Submitting a search form whose keyword is empty or made of white space only does not
  invoke the search: the only effects are \<open>preventDefault\<close> and the error toast. With any
  other keyword the search mutation is invoked, once, with exactly the form data.
\<close>

theorem handleSubmit_blank_keyword:
  "handleSubmit formData =
     (if \<forall>c \<in> set (keyword formData). isWhiteSpace c
      then [PreventDefault, ToastError (js ''Please enter a search keyword'')]
      else [PreventDefault, SearchMutate formData])"
  by (simp add: handleSubmit_def trim_empty_iff)

theorem handleSubmit_blank_keyword_witness:
  "handleSubmit \<lparr>keyword = js '' '', num_results = 50, start_year = None, end_year = None,
       sort_by = js ''citations'', filter_by_title = Some False, exclude_duplicates = Some False\<rparr>
     = [PreventDefault, ToastError (js ''Please enter a search keyword'')]
   \<and> handleSubmit \<lparr>keyword = js ''ml'', num_results = 50, start_year = None, end_year = None,
       sort_by = js ''citations'', filter_by_title = Some False, exclude_duplicates = Some False\<rparr>
     = [PreventDefault, SearchMutate \<lparr>keyword = js ''ml'', num_results = 50, start_year = None,
          end_year = None, sort_by = js ''citations'', filter_by_title = Some False,
          exclude_duplicates = Some False\<rparr>]"
  using handleSubmit_blank_keyword [of "\<lparr>keyword = js '' '', num_results = 50, start_year = None,
       end_year = None, sort_by = js ''citations'', filter_by_title = Some False,
       exclude_duplicates = Some False\<rparr>"]
     handleSubmit_blank_keyword [of "\<lparr>keyword = js ''ml'', num_results = 50, start_year = None,
       end_year = None, sort_by = js ''citations'', filter_by_title = Some False,
       exclude_duplicates = Some False\<rparr>"]
  by (simp add: js_def isWhiteSpace_def)

subsection \<open>Starting a batch\<close>

text \<open>
  C1. When neither kind of address is selected, \<open>handleBatchSend\<close> returns after an alert:
  the state is unchanged (the sender does not enter its loading state), no POST to the
  batch-send endpoint is issued, and the start button is disabled, so that a click on it
  does nothing at all.
\<close>

theorem no_include_flags_no_post:
  assumes "\<not> includeAuthorEmails st" and "\<not> includePdfEmails st"
  shows "fst (handleBatchSend props st) = st
       \<and> (\<exists>m. snd (handleBatchSend props st) = [Alert m])
       \<and> (\<forall>req. PostBatchSend req \<notin> set (snd (handleBatchSend props st)))
       \<and> start_button_disabled st
       \<and> click_start props st = (st, [])"
  using assms by (simp add: handleBatchSend_def start_button_disabled_def click_start_def)

theorem no_include_flags_no_post_witness:
  "fst (handleBatchSend \<lparr>searchId = 7, totalArticles = 3\<rparr>
          \<lparr>subject = js ''Hello'', includeAuthorEmails = False, includePdfEmails = False,
           isLoading = False, progress_of = None, isComplete = False\<rparr>)
     = \<lparr>subject = js ''Hello'', includeAuthorEmails = False, includePdfEmails = False,
           isLoading = False, progress_of = None, isComplete = False\<rparr>
   \<and> snd (handleBatchSend \<lparr>searchId = 7, totalArticles = 3\<rparr>
          \<lparr>subject = js ''Hello'', includeAuthorEmails = False, includePdfEmails = False,
           isLoading = False, progress_of = None, isComplete = False\<rparr>)
     = [Alert msg_select_email_type]"
  using no_include_flags_no_post [of
          "\<lparr>subject = js ''Hello'', includeAuthorEmails = False, includePdfEmails = False,
           isLoading = False, progress_of = None, isComplete = False\<rparr>"
          "\<lparr>searchId = 7, totalArticles = 3\<rparr>"]
  by (simp add: handleBatchSend_def trim_def js_def isWhiteSpace_def)

subsection \<open>The success rate of the completion panels\<close>

lemma success_rate_finite:
  assumes "success_rate r = Some v" and "r_sent r \<le> r_total r"
  shows "0 < r_sent r \<and> 1 \<le> r_total r \<and> (\<exists>k. v = Fin (of_int k) \<and> 0 \<le> k \<and> k \<le> 100)"
proof -
  from assms(1) have pos: "0 < r_sent r"
    by (simp add: success_rate_def split: if_splits)
  with assms(2) have tpos: "1 \<le> r_total r" by simp
  let ?q = "(of_int (r_sent r) / of_int (r_total r) :: rat) * 100"
  from assms(1) pos tpos have v: "v = Fin (of_int \<lfloor>?q + 1 / 2\<rfloor>)"
    by (simp add: success_rate_def js_div_def)
  have q0: "0 \<le> ?q" using pos tpos by simp
  have q1: "?q \<le> 100"
    using assms(2) tpos by (simp add: pos_divide_le_eq)
  have "0 \<le> \<lfloor>?q + 1 / 2\<rfloor>" using q0 by simp
  moreover have "\<lfloor>?q + 1 / 2\<rfloor> \<le> 100"
  proof -
    have "?q + 1 / 2 < 101" using q1 by simp
    then have "\<lfloor>?q + 1 / 2\<rfloor> < 101" by (simp add: floor_less_iff)
    then show ?thesis by simp
  qed
  ultimately show ?thesis using pos tpos v by blast
qed

text \<open>
  C10. In both completion panels the success rate is evaluated only when \<open>sent > 0\<close>.
  With \<open>sent \<le> total\<close> the divisor \<open>total\<close> is then at least 1, and the displayed
  value is a finite number between 0 and 100, never an infinity or NaN.
\<close>

theorem success_rate_never_divides_by_zero:
  assumes "r_sent r \<le> r_total r"
  shows "(sender_success_rate st = Some v \<and> progress_of st = Some p \<and> bp_result p = Some r
            \<longrightarrow> 0 < r_sent r \<and> 1 \<le> r_total r
                \<and> (\<exists>k. v = Fin (of_int k) \<and> 0 \<le> k \<and> k \<le> 100))
       \<and> (topbar_success_rate vis ts = Some v \<and> tp_progress ts = Some p \<and> bp_result p = Some r
            \<longrightarrow> 0 < r_sent r \<and> 1 \<le> r_total r
                \<and> (\<exists>k. v = Fin (of_int k) \<and> 0 \<le> k \<and> k \<le> 100))"
proof (intro conjI impI)
  assume a: "sender_success_rate st = Some v \<and> progress_of st = Some p \<and> bp_result p = Some r"
  then have "success_rate r = Some v"
    by (auto simp: sender_success_rate_def split: if_splits)
  from success_rate_finite [OF this assms]
  show "0 < r_sent r" "1 \<le> r_total r" "\<exists>k. v = Fin (of_int k) \<and> 0 \<le> k \<and> k \<le> 100"
    by simp_all
next
  assume a: "topbar_success_rate vis ts = Some v \<and> tp_progress ts = Some p \<and> bp_result p = Some r"
  then have "success_rate r = Some v"
    by (auto simp: topbar_success_rate_def split: if_splits)
  from success_rate_finite [OF this assms]
  show "0 < r_sent r" "1 \<le> r_total r" "\<exists>k. v = Fin (of_int k) \<and> 0 \<le> k \<and> k \<le> 100"
    by simp_all
qed

theorem success_rate_never_divides_by_zero_witness:
  "sender_success_rate
      \<lparr>subject = [], includeAuthorEmails = True, includePdfEmails = True, isLoading = False,
       progress_of = Some example_completion, isComplete = True\<rparr> = Some (Fin 67)
   \<and> topbar_success_rate True \<lparr>tp_progress = Some example_completion, tp_isComplete = True\<rparr>
       = Some (Fin 67)
   \<and> (1::int) \<le> r_total \<lparr>r_total = 3, r_sent = 2, r_failed = 1\<rparr>"
proof -
  let ?r = "\<lparr>r_total = 3, r_sent = 2, r_failed = 1\<rparr>"
  let ?st = "\<lparr>subject = [], includeAuthorEmails = True, includePdfEmails = True,
       isLoading = False, progress_of = Some example_completion, isComplete = True\<rparr>"
  let ?ts = "\<lparr>tp_progress = Some example_completion, tp_isComplete = True\<rparr>"
  have h: "r_sent ?r \<le> r_total ?r" by simp
  have e1: "sender_success_rate ?st = Some (Fin 67)" by code_simp
  have e2: "topbar_success_rate True ?ts = Some (Fin 67)" by code_simp
  have e3: "bp_result example_completion = Some ?r" by (simp add: example_completion_def)
  from success_rate_never_divides_by_zero [OF h, of ?st "Fin 67" example_completion True ?ts]
    e1 e2 e3
  show ?thesis by simp
qed

subsection \<open>Extraction requests of the results page\<close>

lemma page_step_inv: "page_inv st \<Longrightarrow> page_inv (fst (page_step st ev))"
proof (cases ev)
  case (ClickExtract h a)
  assume "page_inv st"
  then show ?thesis using ClickExtract
    by (auto simp: page_inv_def extract_button_def split: option.splits if_splits)
next
  case (ClickExtractAll h)
  assume "page_inv st"
  then show ?thesis using ClickExtractAll by (simp add: page_inv_def)
next
  case (ExtractSettled i outcome)
  assume "page_inv st"
  then show ?thesis using ExtractSettled by (auto simp: page_inv_def)
qed

lemma page_run_inv: "page_inv st \<Longrightarrow> page_inv (fst (page_run st evs))"
proof (induction evs arbitrary: st)
  case Nil
  then show ?case by simp
next
  case (Cons e es)
  from Cons.prems have "page_inv (fst (page_step st e))" by (rule page_step_inv)
  then have "page_inv (fst (page_run (fst (page_step st e)) es))" by (rule Cons.IH)
  then show ?case by (simp add: split_beta)
qed

lemma click_inflight_noop:
  "article_id a \<in> extractingEmails st \<Longrightarrow> page_step st (ClickExtract h a) = (st, [])"
  by (simp add: extract_button_def split: option.splits)

text \<open>
  C2. In the life of one instance of the page, from its initial state: after any sequence
  of clicks on the extraction buttons and of settled requests, no
  article id has more than one call of \<open>extractAuthorEmails\<close> in flight, the ids in flight
  are exactly those of \<open>extractingEmails\<close>, and a click on the button of an article whose
  request is in flight issues nothing and changes nothing. This holds whatever the
  \<open>isLoading\<close> flags and the proxy status are at each render; a click on the extract-all
  button issues the request for the whole search, which is not a call for one article.
\<close>

theorem one_extraction_in_flight:
  "distinct (inflight (fst (page_run initial_page evs)))
   \<and> set (inflight (fst (page_run initial_page evs)))
       = extractingEmails (fst (page_run initial_page evs))
   \<and> (\<forall>h a. article_id a \<in> set (inflight (fst (page_run initial_page evs))) \<longrightarrow>
         page_step (fst (page_run initial_page evs)) (ClickExtract h a)
           = (fst (page_run initial_page evs), []))"
proof -
  have "page_inv initial_page" by (simp add: page_inv_def initial_page_def)
  then have "page_inv (fst (page_run initial_page evs))" by (rule page_run_inv)
  then show ?thesis
    by (auto simp: page_inv_def simp del: page_step.simps intro: click_inflight_noop)
qed

theorem one_extraction_in_flight_witness:
  "page_run initial_page
     [ClickExtract example_connected example_article, ClickExtractAll example_connected,
      ClickExtract example_connected example_article]
     = (\<lparr>extractingEmails = {Some 5}, inflight = [Some 5]\<rparr>,
        [PostExtractAuthorEmails (Some 5), PostExtractAllAuthorEmails])
   \<and> page_step \<lparr>extractingEmails = {Some 5}, inflight = [Some 5]\<rparr>
         (ClickExtract example_connected example_article)
       = (\<lparr>extractingEmails = {Some 5}, inflight = [Some 5]\<rparr>, [])"
proof -
  let ?evs = "[ClickExtract example_connected example_article, ClickExtractAll example_connected,
      ClickExtract example_connected example_article]"
  have c: "proxy_connected example_connected"
    by (simp add: proxy_connected_def example_connected_def)
  have i: "article_id example_article = Some 5" "has_author_links example_article"
    "author_emails example_article = None"
    by (simp_all add: example_article_def has_author_links_def)
  have l: "\<not> extractEmails_isLoading example_connected"
    "\<not> extractAllEmails_isLoading example_connected"
    by (simp_all add: example_connected_def)
  have e: "page_run initial_page ?evs
     = (\<lparr>extractingEmails = {Some 5}, inflight = [Some 5]\<rparr>,
        [PostExtractAuthorEmails (Some 5), PostExtractAllAuthorEmails])"
    by (simp add: initial_page_def extract_button_def extract_all_button_def c i l)
  from one_extraction_in_flight [of ?evs] e show ?thesis
    by (simp del: page_run.simps page_step.simps add: i)
qed

subsection \<open>Extraction needs the proxy\<close>

lemma not_connected_all_button:
  "\<not> proxy_connected h \<Longrightarrow>
   btn_disabled (extract_all_button h) \<and> btn_title (extract_all_button h) = title_need_proxy"
  by (simp add: extract_all_button_def)

lemma not_connected_button:
  "\<not> proxy_connected h \<Longrightarrow> extract_button st h a = Some b \<Longrightarrow>
   btn_disabled b \<and> btn_title b = title_need_proxy"
  by (auto simp: extract_button_def split: if_splits)

lemma not_connected_clicks:
  "\<not> proxy_connected h \<Longrightarrow>
   page_step st (ClickExtractAll h) = (st, []) \<and> page_step st (ClickExtract h a) = (st, [])"
  by (simp add: extract_all_button_def extract_button_def)

lemma not_connected_banner:
  "\<not> proxy_connected h \<Longrightarrow> proxyStatus h = Some p \<Longrightarrow>
   proxy_banner h = Some (if status p = js ''disabled'' then banner_disabled else banner_failed)"
  by (simp add: proxy_banner_def proxy_connected_def)

lemma connected_titles:
  "proxy_connected h \<Longrightarrow>
   btn_title (extract_all_button h) = []
   \<and> (\<forall>b. extract_button st h a = Some b \<longrightarrow> btn_title b = [])"
  by (auto simp: extract_all_button_def extract_button_def split: if_splits)

lemma extracted_no_button: "author_emails a \<noteq> None \<Longrightarrow> extract_button st h a = None"
  by (simp add: extract_button_def)

text \<open>
  C3. Whenever the proxy status is not \<open>connected\<close> (disabled, failed, or not known yet),
  both extraction buttons are disabled and a click on either issues no request. The
  condition is shown by the tooltip of the buttons and by the banner, which says "not
  enabled" or "connection failed". With a connected proxy the tooltip is empty, and an
  article whose extraction has returned, with or without addresses, has no extraction
  button, so the tooltip never stands for an extraction that found nothing.
\<close>

theorem proxy_not_connected_disables_extraction:
  assumes "\<not> proxy_connected h"
  shows "btn_disabled (extract_all_button h)
       \<and> btn_title (extract_all_button h) = title_need_proxy
       \<and> page_step st (ClickExtractAll h) = (st, [])
       \<and> (\<forall>b. extract_button st h a = Some b \<longrightarrow> btn_disabled b \<and> btn_title b = title_need_proxy)
       \<and> page_step st (ClickExtract h a) = (st, [])
       \<and> title_need_proxy \<noteq> []
       \<and> (\<forall>p. proxyStatus h = Some p \<longrightarrow>
             proxy_banner h
               = Some (if status p = js ''disabled'' then banner_disabled else banner_failed))
       \<and> (\<forall>h'. proxy_connected h' \<longrightarrow>
             btn_title (extract_all_button h') = []
             \<and> (\<forall>b. extract_button st h' a = Some b \<longrightarrow> btn_title b = []))
       \<and> (\<forall>h'. author_emails a \<noteq> None \<longrightarrow> extract_button st h' a = None)"
proof -
  have c1: "btn_disabled (extract_all_button h)"
    and c2: "btn_title (extract_all_button h) = title_need_proxy"
    using not_connected_all_button [OF assms] by simp_all
  have c3: "page_step st (ClickExtractAll h) = (st, [])"
    and c5: "page_step st (ClickExtract h a) = (st, [])"
    using not_connected_clicks [OF assms] by simp_all
  have c4: "\<forall>b. extract_button st h a = Some b \<longrightarrow> btn_disabled b \<and> btn_title b = title_need_proxy"
    using not_connected_button [OF assms] by simp
  have c6: "title_need_proxy \<noteq> []" by (simp add: title_need_proxy_def)
  have c7: "\<forall>p. proxyStatus h = Some p \<longrightarrow>
             proxy_banner h
               = Some (if status p = js ''disabled'' then banner_disabled else banner_failed)"
    using not_connected_banner [OF assms] by simp
  have c8: "\<forall>h'. proxy_connected h' \<longrightarrow>
             btn_title (extract_all_button h') = []
             \<and> (\<forall>b. extract_button st h' a = Some b \<longrightarrow> btn_title b = [])"
    using connected_titles by simp
  have c9: "\<forall>h'. author_emails a \<noteq> None \<longrightarrow> extract_button st h' a = None"
    using extracted_no_button by simp
  show ?thesis by (intro conjI c1 c2 c3 c4 c5 c6 c7 c8 c9)
qed

theorem proxy_not_connected_disables_extraction_witness:
  "\<not> proxy_connected example_disabled
   \<and> btn_disabled (extract_all_button example_disabled)
   \<and> page_step initial_page (ClickExtractAll example_disabled) = (initial_page, [])
   \<and> page_step initial_page (ClickExtract example_disabled example_article) = (initial_page, [])
   \<and> proxy_banner example_disabled = Some banner_disabled"
proof -
  have h: "\<not> proxy_connected example_disabled"
    by (simp add: proxy_connected_def example_disabled_def js_def)
  have p: "proxyStatus example_disabled
     = Some \<lparr>proxy_enabled = False, proxy_url = None, status = js ''disabled'', message = None\<rparr>"
    by (simp add: example_disabled_def)
  from proxy_not_connected_disables_extraction [OF h, of initial_page example_article] h p
  show ?thesis by (simp del: page_step.simps)
qed

subsection \<open>What the observers of a batch display\<close>

lemma sender_receive_Cons:
  "sender_receive st (m # ms) = sender_receive (sender_onmessage st m) ms"
  by (simp add: sender_receive_def)

lemma sender_receive_progress:
  "progress_of (sender_receive st msgs)
     = (if shown msgs = [] then progress_of st else last (shown msgs))"
proof (induction msgs arbitrary: st)
  case Nil
  then show ?case by (simp add: sender_receive_def)
next
  case (Cons m ms)
  show ?case
    using Cons.IH [of "sender_onmessage st m"]
    by (cases m) (simp_all add: sender_receive_Cons Let_def)
qed

lemma sender_receive_complete:
  "isComplete (sender_receive st msgs) \<longleftrightarrow> isComplete st \<or> (\<exists>m \<in> set msgs. completes m)"
proof (induction msgs arbitrary: st)
  case Nil
  then show ?case by (simp add: sender_receive_def)
next
  case (Cons m ms)
  show ?case
    using Cons.IH [of "sender_onmessage st m"]
    by (cases m) (auto simp: sender_receive_Cons Let_def)
qed

lemma topbar_receive_progress:
  "tp_progress (fst (topbar_receive st msgs))
     = (if shown msgs = [] then tp_progress st else last (shown msgs))"
proof (induction msgs arbitrary: st)
  case Nil
  then show ?case by simp
next
  case (Cons m ms)
  show ?case
    using Cons.IH [of "fst (topbar_onmessage st m)"]
    by (cases m) (simp_all add: Let_def split_beta)
qed

lemma topbar_receive_complete:
  "tp_isComplete (fst (topbar_receive st msgs))
     \<longleftrightarrow> tp_isComplete st \<or> (\<exists>m \<in> set msgs. completes m)"
proof (induction msgs arbitrary: st)
  case Nil
  then show ?case by simp
next
  case (Cons m ms)
  show ?case
    using Cons.IH [of "fst (topbar_onmessage st m)"]
    by (cases m) (auto simp: Let_def split_beta)
qed

lemma topbar_receive_timers:
  "snd (topbar_receive ts msgs) = replicate (length (filter completes msgs)) (SetTimeout_onClose 5000)"
proof (induction msgs arbitrary: ts)
  case Nil
  then show ?case by simp
next
  case (Cons m ms)
  show ?case
    using Cons.IH [of "fst (topbar_onmessage ts m)"]
    by (cases m) (simp_all add: Let_def split_beta)
qed

lemma shown_values: "shown (map JsonValue ps) = map Some ps"
  by (induction ps) simp_all

subsection \<open>The dialog that the page does not mount\<close>

lemma mark_steps_length: "length (mark_steps i xs) = length xs"
  by (simp add: mark_steps_def)

lemma mark_steps_nth:
  "idx < length xs \<Longrightarrow>
   step_status (mark_steps i xs ! idx)
     = (if idx < i then Completed else if idx = i then InProgress else step_status (xs ! idx))"
  by (simp add: mark_steps_def nth_enumerate_eq)

lemma simulate_loop_length: "length (simulate_loop i n st) = Suc n"
  by (induction n arbitrary: i st) (simp_all add: Let_def)

lemma simulate_loop_last:
  "extractionResult (last (simulate_loop i n st))
     = Some \<lparr>success = True, result_message = msg_extracted_two\<rparr>
   \<and> \<not> isExtracting (last (simulate_loop i n st))
   \<and> (\<forall>s \<in> set (steps (last (simulate_loop i n st))). step_status s = Completed)"
proof (induction n arbitrary: i st)
  case 0
  show ?case by (simp add: finish_def)
next
  case (Suc n)
  have "simulate_loop (Suc i) n (iteration i st) \<noteq> []"
    using simulate_loop_length [of "Suc i" n "iteration i st"] by (cases "simulate_loop (Suc i) n (iteration i st)") simp_all
  then show ?case using Suc [of "Suc i" "iteration i st"] by (simp add: Let_def)
qed

lemma simulate_loop_nth:
  "k < n \<Longrightarrow>
   currentStep (simulate_loop i n st ! k) = i + k
   \<and> length (steps (simulate_loop i n st ! k)) = length (steps st)
   \<and> isExtracting (simulate_loop i n st ! k) = isExtracting st
   \<and> extractionResult (simulate_loop i n st ! k) = extractionResult st
   \<and> (\<forall>idx < length (steps st).
         step_status (steps (simulate_loop i n st ! k) ! idx)
           = (if idx < i + k then Completed else if idx = i + k then InProgress
              else step_status (steps st ! idx)))"
proof (induction n arbitrary: i st k)
  case 0
  then show ?case by simp
next
  case (Suc n)
  show ?case
  proof (cases k)
    case 0
    then show ?thesis
      by (simp add: Let_def iteration_def mark_steps_length mark_steps_nth)
  next
    case (Suc k')
    with Suc.prems have "k' < n" by simp
    from Suc.IH [OF this, of "Suc i" "iteration i st"] Suc
    show ?thesis
      by (auto simp: Let_def iteration_def mark_steps_length mark_steps_nth)
  qed
qed

text \<open>
  Were the dialog \<open>PDFExtractionProgress\<close> mounted and open, it would display its steps one
  after the other on timers, step \<open>k\<close> in progress and the earlier ones completed at the
  \<open>k\<close>-th wait, and end with all steps completed and a success, also for an extraction
  request that failed: it takes no event of the extraction.
\<close>

lemma dialog_is_a_simulation:
  "simulateProgress False view = []
   \<and> length (simulateProgress True view) = Suc (length (steps view))
   \<and> (\<forall>k < length (steps view).
         currentStep (simulateProgress True view ! k) = k
         \<and> (\<forall>idx < length (steps view).
               step_status (steps (simulateProgress True view ! k) ! idx)
                 = (if idx < k then Completed else if idx = k then InProgress
                    else step_status (steps view ! idx))))
   \<and> extractionResult (last (simulateProgress True view))
       = Some \<lparr>success = True, result_message = msg_extracted_two\<rparr>
   \<and> \<not> shows_outcome (last (simulateProgress True view)) (ExtractFailed m)"
proof -
  have c1: "simulateProgress False view = []" by (simp add: simulateProgress_def)
  have c2: "length (simulateProgress True view) = Suc (length (steps view))"
    by (simp add: simulateProgress_def simulate_loop_length)
  have c3: "\<forall>k < length (steps view).
         currentStep (simulateProgress True view ! k) = k
         \<and> (\<forall>idx < length (steps view).
               step_status (steps (simulateProgress True view ! k) ! idx)
                 = (if idx < k then Completed else if idx = k then InProgress
                    else step_status (steps view ! idx)))"
  proof (intro allI impI)
    fix k assume "k < length (steps view)"
    from simulate_loop_nth [OF this, of 0 view]
    show "currentStep (simulateProgress True view ! k) = k
         \<and> (\<forall>idx < length (steps view).
               step_status (steps (simulateProgress True view ! k) ! idx)
                 = (if idx < k then Completed else if idx = k then InProgress
                    else step_status (steps view ! idx)))"
      by (simp add: simulateProgress_def)
  qed
  have c4: "extractionResult (last (simulateProgress True view))
       = Some \<lparr>success = True, result_message = msg_extracted_two\<rparr>"
    using simulate_loop_last [of 0 "length (steps view)" view] by (simp add: simulateProgress_def)
  then have c5: "\<not> shows_outcome (last (simulateProgress True view)) (ExtractFailed m)"
    by (simp add: shows_outcome_def)
  show ?thesis by (intro conjI c1 c2 c3 c4 c5)
qed

subsection \<open>The event stream of a batch\<close>

lemma process_recipient_processed:
  "processed (snd (process_recipient g c run r)) = Suc (processed run)"
  by (simp add: process_recipient_def)

lemma dispatch_loop_events:
  "length (fst (snd (dispatch_loop g c t run rs))) = length rs
   \<and> (\<forall>e \<in> set (fst (snd (dispatch_loop g c t run rs))). \<not> is_completion e)"
  by (induction rs arbitrary: run) (simp_all add: split_beta Let_def)

lemma dispatch_loop_recipients: "map fst (fst (dispatch_loop g c t run rs)) = rs"
  by (induction rs arbitrary: run) (simp_all add: split_beta Let_def)

lemma upt_from_Suc: "[i ..< i + Suc n] = i # [Suc i ..< Suc i + n]"
  using upt_conv_Cons [of i "i + Suc n"] by simp

lemma dispatch_loop_percents:
  "map ev_percent (fst (snd (dispatch_loop g c t run rs)))
     = map (\<lambda>k. Some (percent k t)) [Suc (processed run) ..< Suc (processed run) + length rs]"
proof (induction rs arbitrary: run)
  case Nil
  then show ?case by simp
next
  case (Cons r rs)
  let ?run' = "snd (process_recipient g c run r)"
  have p: "processed ?run' = Suc (processed run)" by (rule process_recipient_processed)
  have "map ev_percent (fst (snd (dispatch_loop g c t run (r # rs))))
          = Some (percent (Suc (processed run)) t)
            # map ev_percent (fst (snd (dispatch_loop g c t ?run' rs)))"
    by (simp add: split_beta Let_def p)
  also have "\<dots> = Some (percent (Suc (processed run)) t)
            # map (\<lambda>k. Some (percent k t)) [Suc (Suc (processed run)) ..< Suc (Suc (processed run)) + length rs]"
    using Cons.IH [of ?run'] by (simp only: p)
  also have "\<dots> = map (\<lambda>k. Some (percent k t)) [Suc (processed run) ..< Suc (processed run) + Suc (length rs)]"
    by (simp only: upt_from_Suc list.map)
  finally show ?case by simp
qed

lemma dispatch_shape:
  "\<exists>pre c. dispatch cp g cap contacted rs = pre @ [c] \<and> is_completion c
     \<and> (\<forall>e \<in> set pre. \<not> is_completion e)
     \<and> length pre = (if cp then length rs else 0)
     \<and> (cp \<longrightarrow> map ev_percent pre = map (\<lambda>k. Some (percent k (length rs))) [1 ..< Suc (length rs)])"
proof (cases cp)
  case False
  then show ?thesis by (simp add: dispatch_def)
next
  case True
  let ?run = "\<lparr>registry = contacted, processed = 0, sent = 0, failed_count = 0\<rparr>"
  let ?res = "dispatch_loop g cap (length rs) ?run rs"
  have d: "dispatch cp g cap contacted rs
     = fst (snd ?res) @ [CompletionEv completed (length rs) (sent (snd (snd ?res)))
                          (failed_count (snd (snd ?res)))]"
    using True by (simp add: dispatch_def split_beta Let_def)
  have p: "map ev_percent (fst (snd ?res)) = map (\<lambda>k. Some (percent k (length rs))) [1 ..< Suc (length rs)]"
    using dispatch_loop_percents [of g cap "length rs" ?run rs] by simp
  from d p dispatch_loop_events [of g cap "length rs" ?run rs] True
  show ?thesis by auto
qed

lemma bp_type_wire: "bp_type (wire e) = Some completion \<longleftrightarrow> is_completion e"
  by (cases e) simp_all

lemma sender_receive_last:
  "\<not> isLoading (sender_receive st (ms @ [JsonValue d])) \<or> bp_type d \<noteq> Some completion"
  by (simp add: sender_receive_def Let_def)

lemma observers_of_stream:
  assumes c: "is_completion c" and pre: "\<forall>e \<in> set pre. \<not> is_completion e"
    and msgs_def: "msgs = map (\<lambda>e. JsonValue (wire e)) (pre @ [c])"
  shows "isComplete (sender_receive st msgs)"
    and "\<not> isLoading (sender_receive st msgs)"
    and "progress_of (sender_receive st msgs) = Some (wire c)"
    and "\<not> isComplete st \<longrightarrow> (\<forall>k < length msgs. \<not> isComplete (sender_receive st (take k msgs)))"
    and "tp_isComplete (fst (topbar_receive ts msgs))"
    and "tp_progress (fst (topbar_receive ts msgs)) = Some (wire c)"
    and "snd (topbar_receive ts msgs) = [SetTimeout_onClose 5000]"
proof -
  have m: "msgs = map JsonValue (map wire (pre @ [c]))"
    by (simp add: msgs_def)
  have sh: "shown msgs = map Some (map wire pre) @ [Some (wire c)]"
    unfolding m shown_values by simp
  have cm: "completes (JsonValue (wire c))" using c by (simp add: bp_type_wire)
  have nc: "filter completes (map (\<lambda>e. JsonValue (wire e)) pre) = []"
    using pre by (simp add: filter_empty_conv bp_type_wire)
  show "isComplete (sender_receive st msgs)"
    using cm by (simp add: sender_receive_complete msgs_def)
  show "\<not> isLoading (sender_receive st msgs)"
    using sender_receive_last [of st "map (\<lambda>e. JsonValue (wire e)) pre" "wire c"] cm
    by (simp add: msgs_def)
  show "progress_of (sender_receive st msgs) = Some (wire c)"
    by (simp add: sender_receive_progress sh)
  show "tp_isComplete (fst (topbar_receive ts msgs))"
    using cm by (simp add: topbar_receive_complete msgs_def)
  show "tp_progress (fst (topbar_receive ts msgs)) = Some (wire c)"
    by (simp add: topbar_receive_progress sh)
  show "snd (topbar_receive ts msgs) = [SetTimeout_onClose 5000]"
    using cm nc by (simp add: topbar_receive_timers msgs_def)
  show "\<not> isComplete st \<longrightarrow> (\<forall>k < length msgs. \<not> isComplete (sender_receive st (take k msgs)))"
  proof (intro impI allI)
    fix k assume st: "\<not> isComplete st" and k: "k < length msgs"
    then have "take k msgs = map (\<lambda>e. JsonValue (wire e)) (take k pre)"
      by (simp add: msgs_def take_map)
    moreover have "\<forall>e \<in> set (take k pre). \<not> is_completion e"
      using pre by (auto dest: in_set_takeD)
    ultimately show "\<not> isComplete (sender_receive st (take k msgs))"
      using st by (simp add: sender_receive_complete bp_type_wire)
  qed
qed

text \<open>
  C4. The event stream of a BatchJob is never empty, its last event is a completion event
  and no earlier event is one, so that it holds exactly one completion event; when the
  batch proceeds, the progress events before it report the recipients one after the other,
  the \<open>k\<close>-th one the percentage of \<open>k\<close> processed recipients. An observer that is fed the
  stream is complete at its end, is not loading any more, and displays the completion
  event; the sender dialog does not become complete before the last message, and the top
  bar sets its closing timer exactly once.
\<close>

theorem completion_event_is_last:
  "dispatch cp g cap contacted rs \<noteq> []
   \<and> is_completion (last (dispatch cp g cap contacted rs))
   \<and> (\<forall>e \<in> set (butlast (dispatch cp g cap contacted rs)). \<not> is_completion e)
   \<and> length (filter is_completion (dispatch cp g cap contacted rs)) = 1
   \<and> (cp \<longrightarrow> map ev_percent (butlast (dispatch cp g cap contacted rs))
                = map (\<lambda>k. Some (percent k (length rs))) [1 ..< Suc (length rs)])
   \<and> isComplete (sender_receive st (batch_messages cp g cap contacted rs))
   \<and> \<not> isLoading (sender_receive st (batch_messages cp g cap contacted rs))
   \<and> progress_of (sender_receive st (batch_messages cp g cap contacted rs))
       = Some (wire (last (dispatch cp g cap contacted rs)))
   \<and> (\<not> isComplete st \<longrightarrow>
        (\<forall>k < length (batch_messages cp g cap contacted rs).
           \<not> isComplete (sender_receive st (take k (batch_messages cp g cap contacted rs)))))
   \<and> tp_isComplete (fst (topbar_receive ts (batch_messages cp g cap contacted rs)))
   \<and> tp_progress (fst (topbar_receive ts (batch_messages cp g cap contacted rs)))
       = Some (wire (last (dispatch cp g cap contacted rs)))
   \<and> snd (topbar_receive ts (batch_messages cp g cap contacted rs)) = [SetTimeout_onClose 5000]"
proof -
  from dispatch_shape [of cp g cap contacted rs]
  obtain pre c where d: "dispatch cp g cap contacted rs = pre @ [c]"
    and c: "is_completion c" and pre: "\<forall>e \<in> set pre. \<not> is_completion e"
    and pc: "cp \<longrightarrow> map ev_percent pre = map (\<lambda>k. Some (percent k (length rs))) [1 ..< Suc (length rs)]"
    by blast
  have m: "batch_messages cp g cap contacted rs = map (\<lambda>e. JsonValue (wire e)) (pre @ [c])"
    by (simp add: batch_messages_def d)
  have f: "filter is_completion pre = []" using pre by (simp add: filter_empty_conv)
  note o = observers_of_stream [OF c pre m]
  have a1: "dispatch cp g cap contacted rs \<noteq> []" by (simp add: d)
  have a2: "is_completion (last (dispatch cp g cap contacted rs))" using c by (simp add: d)
  have a3: "\<forall>e \<in> set (butlast (dispatch cp g cap contacted rs)). \<not> is_completion e"
    using pre by (simp add: d)
  have a4: "length (filter is_completion (dispatch cp g cap contacted rs)) = 1"
    using c f by (simp add: d)
  have a5: "cp \<longrightarrow> map ev_percent (butlast (dispatch cp g cap contacted rs))
                = map (\<lambda>k. Some (percent k (length rs))) [1 ..< Suc (length rs)]"
  proof -
    have "butlast (dispatch cp g cap contacted rs) = pre" by (simp add: d)
    with pc show ?thesis by (simp only:)
  qed
  have l: "last (dispatch cp g cap contacted rs) = c" by (simp add: d)
  show ?thesis
    unfolding l
    by (intro conjI a1 a2 [unfolded l] a3 a4 a5 o)
qed

theorem completion_event_is_last_witness:
  "dispatch True example_gateway 3 [] [js ''a@x.org'', js ''b@y.org'']
     = [ProgressEv 50 2 1 0, ProgressEv 100 2 1 1, CompletionEv completed 2 1 1]
   \<and> isComplete (sender_receive example_sender
         (batch_messages True example_gateway 3 [] [js ''a@x.org'', js ''b@y.org'']))
   \<and> \<not> isComplete (sender_receive example_sender
         (take 2 (batch_messages True example_gateway 3 [] [js ''a@x.org'', js ''b@y.org''])))
   \<and> progress_of (sender_receive example_sender
         (batch_messages True example_gateway 3 [] [js ''a@x.org'', js ''b@y.org'']))
       = Some (wire (CompletionEv completed 2 1 1))"
proof -
  let ?rs = "[js ''a@x.org'', js ''b@y.org'']"
  have d: "dispatch True example_gateway 3 [] ?rs
     = [ProgressEv 50 2 1 0, ProgressEv 100 2 1 1, CompletionEv completed 2 1 1]"
    by code_simp
  have s: "\<not> isComplete example_sender" by (simp add: example_sender_def)
  have n: "length (batch_messages True example_gateway 3 [] ?rs) = 3"
    by (simp add: batch_messages_def d)
  from completion_event_is_last [of True example_gateway 3 "[]" ?rs example_sender
         "\<lparr>tp_progress = None, tp_isComplete = False\<rparr>"] d s n
  show ?thesis by simp
qed

subsection \<open>The progress that is shown\<close>

lemma dispatch_loop_append:
  "dispatch_loop g c t run (xs @ ys)
     = (let (o1, e1, r1) = dispatch_loop g c t run xs;
            (o2, e2, r2) = dispatch_loop g c t r1 ys
        in (o1 @ o2, e1 @ e2, r2))"
  by (induction xs arbitrary: run) (simp_all add: split_beta Let_def)

lemma process_recipient_counts:
  "sent (snd (process_recipient g c run r))
     = sent run + (if fst (process_recipient g c run r) = Sent then 1 else 0)
   \<and> failed_count (snd (process_recipient g c run r))
     = failed_count run + (if fst (process_recipient g c run r) = NotSent then 1 else 0)"
  by (simp add: process_recipient_def)

lemma dispatch_loop_counts:
  "sent (snd (snd (dispatch_loop g c t run rs)))
     = sent run + count_outcome Sent (fst (dispatch_loop g c t run rs))
   \<and> failed_count (snd (snd (dispatch_loop g c t run rs)))
     = failed_count run + count_outcome NotSent (fst (dispatch_loop g c t run rs))"
proof (induction rs arbitrary: run)
  case Nil
  then show ?case by (simp add: count_outcome_def)
next
  case (Cons r rs)
  show ?case
    using Cons.IH [of "snd (process_recipient g c run r)"] process_recipient_counts [of g c run r]
    by (simp add: split_beta Let_def count_outcome_def)
qed

lemma outcomes_take:
  "fst (dispatch_loop g c t run (take k rs)) = take k (fst (dispatch_loop g c t run rs))"
proof -
  have "fst (dispatch_loop g c t run (take k rs @ drop k rs))
          = fst (dispatch_loop g c t run (take k rs))
            @ fst (dispatch_loop g c t (snd (snd (dispatch_loop g c t run (take k rs)))) (drop k rs))"
    by (simp only: dispatch_loop_append) (simp add: split_beta Let_def)
  moreover have "length (fst (dispatch_loop g c t run (take k rs))) = min k (length rs)"
    using dispatch_loop_recipients [of g c t run "take k rs"]
    by (metis length_map length_take min.commute)
  ultimately show ?thesis by (simp add: min_def)
qed

lemma snapshot_counts:
  "bp_total (snapshot g cap contacted rs k) = Some (int (length rs))
   \<and> bp_sent (snapshot g cap contacted rs k)
       = Some (int (count_outcome Sent (take k (outcomes g cap contacted rs))))
   \<and> bp_failed (snapshot g cap contacted rs k)
       = Some (int (count_outcome NotSent (take k (outcomes g cap contacted rs))))
   \<and> bp_type (snapshot g cap contacted rs k) = Some progress"
  using dispatch_loop_counts [of g cap "length rs"
          "\<lparr>registry = contacted, processed = 0, sent = 0, failed_count = 0\<rparr>" "take k rs"]
  by (simp add: snapshot_def run_after_def outcomes_def outcomes_take Let_def)

lemma dispatch_last:
  "last (dispatch cp g cap contacted rs)
     = (if cp then CompletionEv completed (length rs)
                     (count_outcome Sent (outcomes g cap contacted rs))
                     (count_outcome NotSent (outcomes g cap contacted rs))
        else CompletionEv failed (length rs) 0 0)"
  using dispatch_loop_counts [of g cap "length rs"
          "\<lparr>registry = contacted, processed = 0, sent = 0, failed_count = 0\<rparr>" rs]
  by (simp add: dispatch_def outcomes_def split_beta Let_def)

lemma display_follows_values:
  assumes "j < length ds"
  shows "progress_of (sender_receive st (take (Suc j) (map JsonValue ds))) = Some (ds ! j)"
    and "tp_progress (fst (topbar_receive ts (take (Suc j) (map JsonValue ds)))) = Some (ds ! j)"
proof -
  have t: "take (Suc j) (map JsonValue ds) = map JsonValue (take j ds @ [ds ! j])"
    using assms by (simp add: take_map take_Suc_conv_app_nth)
  show "progress_of (sender_receive st (take (Suc j) (map JsonValue ds))) = Some (ds ! j)"
    unfolding t sender_receive_progress shown_values by simp
  show "tp_progress (fst (topbar_receive ts (take (Suc j) (map JsonValue ds)))) = Some (ds ! j)"
    unfolding t topbar_receive_progress shown_values by simp
qed

lemma delivered_values:
  "delivered cp g cap contacted rs k
     = map JsonValue (snapshot g cap contacted rs k # map wire (drop k (dispatch cp g cap contacted rs)))"
  by (simp add: delivered_def batch_messages_def drop_map)

lemma delivered_completes:
  assumes "k < length (dispatch cp g cap contacted rs)"
  shows "\<exists>ms c. delivered cp g cap contacted rs k = ms @ [c] \<and> completes c
           \<and> (\<forall>m \<in> set ms. \<not> completes m)"
proof -
  from dispatch_shape [of cp g cap contacted rs]
  obtain pre c where d: "dispatch cp g cap contacted rs = pre @ [c]"
    and c: "is_completion c" and pre: "\<forall>e \<in> set pre. \<not> is_completion e"
    by blast
  from assms d have k: "k \<le> length pre" by simp
  let ?ms = "JsonValue (snapshot g cap contacted rs k) # map (\<lambda>e. JsonValue (wire e)) (drop k pre)"
  have "delivered cp g cap contacted rs k = ?ms @ [JsonValue (wire c)]"
    using k by (simp add: delivered_def batch_messages_def d drop_map)
  moreover have "completes (JsonValue (wire c))" using c by (simp add: bp_type_wire)
  moreover have "\<forall>m \<in> set ?ms. \<not> completes m"
    using pre snapshot_counts [of g cap contacted rs k]
    by (auto simp: bp_type_wire dest: in_set_dropD)
  ultimately show ?thesis by blast
qed

lemma complete_exactly_at_end:
  assumes d: "msgs = ms @ [c]" and c: "completes c" and ms: "\<forall>m \<in> set ms. \<not> completes m"
    and j: "j \<le> length msgs"
  shows "\<not> isComplete st \<longrightarrow> (isComplete (sender_receive st (take j msgs)) \<longleftrightarrow> j = length msgs)"
    and "snd (topbar_receive ts (take j msgs))
           = (if j = length msgs then [SetTimeout_onClose 5000] else [])"
proof -
  have part: "j \<noteq> length msgs \<Longrightarrow> take j msgs = take j ms"
    using j by (simp add: d)
  have nc: "\<forall>m \<in> set (take j ms). \<not> completes m"
    using ms by (auto dest: in_set_takeD)
  have f0: "filter completes ms = []" using ms by (simp add: filter_empty_conv)
  have f1: "filter completes (take j ms) = []" using nc by (simp add: filter_empty_conv)
  show "\<not> isComplete st \<longrightarrow> (isComplete (sender_receive st (take j msgs)) \<longleftrightarrow> j = length msgs)"
  proof (cases "j = length msgs")
    case True
    with c show ?thesis by (simp add: d sender_receive_complete)
  next
    case False
    with nc show ?thesis by (simp add: part sender_receive_complete)
  qed
  show "snd (topbar_receive ts (take j msgs))
           = (if j = length msgs then [SetTimeout_onClose 5000] else [])"
  proof (cases "j = length msgs")
    case True
    with c f0 show ?thesis by (simp add: d topbar_receive_timers)
  next
    case False
    with f1 show ?thesis by (simp add: part topbar_receive_timers)
  qed
qed

lemma labels_differ: "label_extracting \<noteq> label_extract_emails"
  by (simp add: label_extracting_def label_extract_emails_def)

lemma label_tells_in_flight:
  assumes "page_inv w" and "extract_button w h a = Some b"
  shows "btn_label b = label_extracting \<longleftrightarrow> article_id a \<in> set (inflight w)"
  using assms labels_differ
  by (auto simp: page_inv_def extract_button_def split: if_splits)

lemma settled_toasts:
  assumes "i \<in> set (inflight w)"
  shows "snd (page_step w (ExtractSettled i (ExtractFailed m))) = [ToastExtractFailed m]"
    and "snd (page_step w (ExtractSettled i (ExtractSucceeded d)))
           = [ToastExtractDone
                (length (filter (\<lambda>e. email_source e \<noteq> js ''pdf_fallback'' \<and> truthy (email e))
                           (case d of None \<Rightarrow> [] | Some xs \<Rightarrow> xs)))
                (length (filter (\<lambda>e. email_source e = js ''pdf_fallback'')
                           (case d of None \<Rightarrow> [] | Some xs \<Rightarrow> xs))),
              InvalidateSearchDetails]"
  using assms by (simp_all add: Let_def)

lemma dialog_not_mounted: "PDFExtractionProgressComponent \<notin> set (mounted r)"
  by (simp add: mounted_def)

lemma delivered_final:
  assumes "k < length (dispatch cp g cap contacted rs)"
  shows "progress_of (sender_receive st (delivered cp g cap contacted rs k))
           = Some (wire (last (dispatch cp g cap contacted rs)))"
    and "tp_progress (fst (topbar_receive ts (delivered cp g cap contacted rs k)))
           = Some (wire (last (dispatch cp g cap contacted rs)))"
proof -
  let ?S = "dispatch cp g cap contacted rs"
  from assms have n: "drop k ?S \<noteq> []" by simp
  then have l: "last (drop k ?S) = last ?S" by simp
  have sh: "shown (delivered cp g cap contacted rs k)
      = map Some (snapshot g cap contacted rs k # map wire (drop k ?S))"
    unfolding delivered_values shown_values by simp
  have la: "last (map Some (snapshot g cap contacted rs k # map wire (drop k ?S)))
      = Some (wire (last ?S))"
    using n l by (simp add: last_map)
  show "progress_of (sender_receive st (delivered cp g cap contacted rs k)) = Some (wire (last ?S))"
    unfolding sender_receive_progress sh la by simp
  show "tp_progress (fst (topbar_receive ts (delivered cp g cap contacted rs k)))
           = Some (wire (last ?S))"
    unfolding topbar_receive_progress sh la by simp
qed

text \<open>
  C5. The progress shown for a batch run is made of the events of the dispatcher, in their
  order, with the current snapshot on join. An observer that registers while the job runs,
  after \<open>k\<close> events, is delivered the snapshot, which holds the total and the numbers of
  recipients sent and failed among the first \<open>k\<close>, and then the later events. After every
  message both observers display exactly that message. A sender dialog that was not
  complete is complete exactly when the last message has arrived, and the top bar sets no
  timer before that, and then only the one that closes it. The last message is the completion event of the run:
  its status is \<open>completed\<close> when the batch proceeded, with the numbers of recipients sent
  and failed in the run, and \<open>failed\<close> otherwise. For an extraction, in every state that the
  page reaches, the button of an article reads "extracting" exactly while a request for the
  article is in flight, and the toast of a settled request is the failure with its message
  or the success with the counts of the response. The dialog \<open>PDFExtractionProgress\<close> is
  not among the components that the page mounts.
\<close>

theorem shown_progress_is_genuine:
  assumes "k < length (dispatch cp g cap contacted rs)"
  shows "delivered cp g cap contacted rs k
           = map JsonValue (snapshot g cap contacted rs k
                            # map wire (drop k (dispatch cp g cap contacted rs)))
   \<and> bp_total (snapshot g cap contacted rs k) = Some (int (length rs))
   \<and> bp_sent (snapshot g cap contacted rs k)
       = Some (int (count_outcome Sent (take k (outcomes g cap contacted rs))))
   \<and> bp_failed (snapshot g cap contacted rs k)
       = Some (int (count_outcome NotSent (take k (outcomes g cap contacted rs))))
   \<and> (\<forall>j < length (delivered cp g cap contacted rs k).
         progress_of (sender_receive st (take (Suc j) (delivered cp g cap contacted rs k)))
           = Some ((snapshot g cap contacted rs k
                    # map wire (drop k (dispatch cp g cap contacted rs))) ! j)
         \<and> tp_progress (fst (topbar_receive ts (take (Suc j) (delivered cp g cap contacted rs k))))
           = Some ((snapshot g cap contacted rs k
                    # map wire (drop k (dispatch cp g cap contacted rs))) ! j))
   \<and> (\<forall>j \<le> length (delivered cp g cap contacted rs k).
         (\<not> isComplete st \<longrightarrow>
            (isComplete (sender_receive st (take j (delivered cp g cap contacted rs k)))
             \<longleftrightarrow> j = length (delivered cp g cap contacted rs k)))
         \<and> snd (topbar_receive ts (take j (delivered cp g cap contacted rs k)))
             = (if j = length (delivered cp g cap contacted rs k) then [SetTimeout_onClose 5000]
                else []))
   \<and> last (dispatch cp g cap contacted rs)
       = (if cp then CompletionEv completed (length rs)
                       (count_outcome Sent (outcomes g cap contacted rs))
                       (count_outcome NotSent (outcomes g cap contacted rs))
          else CompletionEv failed (length rs) 0 0)
   \<and> progress_of (sender_receive st (delivered cp g cap contacted rs k))
       = Some (wire (last (dispatch cp g cap contacted rs)))
   \<and> tp_progress (fst (topbar_receive ts (delivered cp g cap contacted rs k)))
       = Some (wire (last (dispatch cp g cap contacted rs)))
   \<and> (\<forall>h a b. extract_button (fst (page_run initial_page evs)) h a = Some b \<longrightarrow>
         (btn_label b = label_extracting
          \<longleftrightarrow> article_id a \<in> set (inflight (fst (page_run initial_page evs)))))
   \<and> (\<forall>i \<in> set (inflight (fst (page_run initial_page evs))). \<forall>m d.
         snd (page_step (fst (page_run initial_page evs)) (ExtractSettled i (ExtractFailed m)))
           = [ToastExtractFailed m]
         \<and> snd (page_step (fst (page_run initial_page evs)) (ExtractSettled i (ExtractSucceeded d)))
           = [ToastExtractDone
                (length (filter (\<lambda>e. email_source e \<noteq> js ''pdf_fallback'' \<and> truthy (email e))
                           (case d of None \<Rightarrow> [] | Some xs \<Rightarrow> xs)))
                (length (filter (\<lambda>e. email_source e = js ''pdf_fallback'')
                           (case d of None \<Rightarrow> [] | Some xs \<Rightarrow> xs))),
              InvalidateSearchDetails])
   \<and> PDFExtractionProgressComponent \<notin> set (mounted r)"
proof -
  let ?D = "delivered cp g cap contacted rs k"
  let ?ds = "snapshot g cap contacted rs k # map wire (drop k (dispatch cp g cap contacted rs))"
  let ?w = "fst (page_run initial_page evs)"
  have a1: "?D = map JsonValue ?ds" by (rule delivered_values)
  note sc = snapshot_counts [of g cap contacted rs k]
  have a2: "bp_total (snapshot g cap contacted rs k) = Some (int (length rs))"
    and a3: "bp_sent (snapshot g cap contacted rs k)
       = Some (int (count_outcome Sent (take k (outcomes g cap contacted rs))))"
    and a4: "bp_failed (snapshot g cap contacted rs k)
       = Some (int (count_outcome NotSent (take k (outcomes g cap contacted rs))))"
    using sc by simp_all
  have a5: "\<forall>j < length ?D.
         progress_of (sender_receive st (take (Suc j) ?D)) = Some (?ds ! j)
         \<and> tp_progress (fst (topbar_receive ts (take (Suc j) ?D))) = Some (?ds ! j)"
  proof (intro allI impI)
    fix j assume "j < length ?D"
    then have j: "j < length ?ds" by (simp add: a1)
    from display_follows_values [OF j]
    show "progress_of (sender_receive st (take (Suc j) ?D)) = Some (?ds ! j)
         \<and> tp_progress (fst (topbar_receive ts (take (Suc j) ?D))) = Some (?ds ! j)"
      unfolding a1 by blast
  qed
  from delivered_completes [OF assms]
  obtain ms c where d: "?D = ms @ [c]" and c: "completes c"
    and ms: "\<forall>m \<in> set ms. \<not> completes m"
    by blast
  have a6: "\<forall>j \<le> length ?D.
         (\<not> isComplete st \<longrightarrow> (isComplete (sender_receive st (take j ?D)) \<longleftrightarrow> j = length ?D))
         \<and> snd (topbar_receive ts (take j ?D))
             = (if j = length ?D then [SetTimeout_onClose 5000] else [])"
  proof (intro allI impI)
    fix j assume j: "j \<le> length ?D"
    from complete_exactly_at_end [OF d c ms j]
    show "(\<not> isComplete st \<longrightarrow> (isComplete (sender_receive st (take j ?D)) \<longleftrightarrow> j = length ?D))
         \<and> snd (topbar_receive ts (take j ?D))
             = (if j = length ?D then [SetTimeout_onClose 5000] else [])"
      by blast
  qed
  have a7: "last (dispatch cp g cap contacted rs)
       = (if cp then CompletionEv completed (length rs)
                       (count_outcome Sent (outcomes g cap contacted rs))
                       (count_outcome NotSent (outcomes g cap contacted rs))
          else CompletionEv failed (length rs) 0 0)"
    by (rule dispatch_last)
  note a8 = delivered_final [OF assms]
  have inv: "page_inv ?w"
    by (rule page_run_inv) (simp add: page_inv_def initial_page_def)
  have a9: "\<forall>h a b. extract_button ?w h a = Some b \<longrightarrow>
         (btn_label b = label_extracting \<longleftrightarrow> article_id a \<in> set (inflight ?w))"
    using label_tells_in_flight [OF inv] by blast
  have a10: "\<forall>i \<in> set (inflight ?w). \<forall>m d.
         snd (page_step ?w (ExtractSettled i (ExtractFailed m))) = [ToastExtractFailed m]
         \<and> snd (page_step ?w (ExtractSettled i (ExtractSucceeded d)))
           = [ToastExtractDone
                (length (filter (\<lambda>e. email_source e \<noteq> js ''pdf_fallback'' \<and> truthy (email e))
                           (case d of None \<Rightarrow> [] | Some xs \<Rightarrow> xs)))
                (length (filter (\<lambda>e. email_source e = js ''pdf_fallback'')
                           (case d of None \<Rightarrow> [] | Some xs \<Rightarrow> xs))),
              InvalidateSearchDetails]"
    using settled_toasts by blast
  have a11: "PDFExtractionProgressComponent \<notin> set (mounted r)" by (rule dialog_not_mounted)
  show ?thesis
    by (intro conjI a1 a2 a3 a4 a5 a6 a7 a8 a9 a10 a11)
qed

theorem shown_progress_is_genuine_witness:
  "(1::nat) < length (dispatch True example_gateway 3 [] [js ''a@x.org'', js ''b@y.org''])
   \<and> delivered True example_gateway 3 [] [js ''a@x.org'', js ''b@y.org''] 1
       = [JsonValue (snapshot example_gateway 3 [] [js ''a@x.org'', js ''b@y.org''] 1),
          JsonValue (wire (ProgressEv 100 2 1 1)),
          JsonValue (wire (CompletionEv completed 2 1 1))]
   \<and> bp_sent (snapshot example_gateway 3 [] [js ''a@x.org'', js ''b@y.org''] 1) = Some 1
   \<and> bp_failed (snapshot example_gateway 3 [] [js ''a@x.org'', js ''b@y.org''] 1) = Some 0
   \<and> progress_of (sender_receive example_sender
         (take 2 (delivered True example_gateway 3 [] [js ''a@x.org'', js ''b@y.org''] 1)))
       = Some (wire (ProgressEv 100 2 1 1))
   \<and> \<not> isComplete (sender_receive example_sender
         (take 2 (delivered True example_gateway 3 [] [js ''a@x.org'', js ''b@y.org''] 1)))
   \<and> progress_of (sender_receive example_sender
         (delivered True example_gateway 3 [] [js ''a@x.org'', js ''b@y.org''] 1))
       = Some (wire (CompletionEv completed 2 1 1))
   \<and> snd (page_step (fst (page_run initial_page [ClickExtract example_connected example_article]))
           (ExtractSettled (Some 5) (ExtractFailed (js ''Network Error''))))
       = [ToastExtractFailed (js ''Network Error'')]
   \<and> PDFExtractionProgressComponent \<notin> set (mounted example_render_state)"
proof -
  let ?rs = "[js ''a@x.org'', js ''b@y.org'']"
  let ?D = "delivered True example_gateway 3 [] ?rs 1"
  let ?evs = "[ClickExtract example_connected example_article]"
  have d: "dispatch True example_gateway 3 [] ?rs
     = [ProgressEv 50 2 1 0, ProgressEv 100 2 1 1, CompletionEv completed 2 1 1]"
    by code_simp
  have o: "outcomes example_gateway 3 [] ?rs = [(js ''a@x.org'', Sent), (js ''b@y.org'', NotSent)]"
    by code_simp
  have k: "(1::nat) < length (dispatch True example_gateway 3 [] ?rs)" by (simp add: d)
  have s: "\<not> isComplete example_sender" by (simp add: example_sender_def)
  have f: "inflight (fst (page_run initial_page ?evs)) = [Some 5]" by code_simp
  note T = shown_progress_is_genuine [OF k, of example_sender
      "\<lparr>tp_progress = None, tp_isComplete = False\<rparr>" ?evs example_render_state]
  from T have c1: "?D = map JsonValue (snapshot example_gateway 3 [] ?rs 1
        # map wire (drop 1 (dispatch True example_gateway 3 [] ?rs)))"
    by blast
  then have D: "?D = [JsonValue (snapshot example_gateway 3 [] ?rs 1),
          JsonValue (wire (ProgressEv 100 2 1 1)),
          JsonValue (wire (CompletionEv completed 2 1 1))]"
    by (simp only: d) simp
  from T have "bp_sent (snapshot example_gateway 3 [] ?rs 1)
       = Some (int (count_outcome Sent (take 1 (outcomes example_gateway 3 [] ?rs))))"
    by blast
  then have c3: "bp_sent (snapshot example_gateway 3 [] ?rs 1) = Some 1"
    by (simp add: o count_outcome_def)
  from T have "bp_failed (snapshot example_gateway 3 [] ?rs 1)
       = Some (int (count_outcome NotSent (take 1 (outcomes example_gateway 3 [] ?rs))))"
    by blast
  then have c4: "bp_failed (snapshot example_gateway 3 [] ?rs 1) = Some 0"
    by (simp add: o count_outcome_def)
  from T have c5: "\<forall>j < length ?D.
         progress_of (sender_receive example_sender (take (Suc j) ?D))
           = Some ((snapshot example_gateway 3 [] ?rs 1
                    # map wire (drop 1 (dispatch True example_gateway 3 [] ?rs))) ! j)"
    by blast
  have l: "length ?D = 3" unfolding D by simp
  from c5 [rule_format, of 1] l
  have c5': "progress_of (sender_receive example_sender (take 2 ?D)) = Some (wire (ProgressEv 100 2 1 1))"
    by (simp add: d numeral_2_eq_2)
  from T have c6: "\<forall>j \<le> length ?D.
         (\<not> isComplete example_sender \<longrightarrow>
            (isComplete (sender_receive example_sender (take j ?D)) \<longleftrightarrow> j = length ?D))"
    by blast
  from c6 [rule_format, of 2] l s
  have c6': "\<not> isComplete (sender_receive example_sender (take 2 ?D))" by simp
  from T have "progress_of (sender_receive example_sender ?D)
       = Some (wire (last (dispatch True example_gateway 3 [] ?rs)))"
    by blast
  then have c8: "progress_of (sender_receive example_sender ?D)
       = Some (wire (CompletionEv completed 2 1 1))"
    by (simp add: d)
  from T have c10: "\<forall>i \<in> set (inflight (fst (page_run initial_page ?evs))). \<forall>m.
         snd (page_step (fst (page_run initial_page ?evs)) (ExtractSettled i (ExtractFailed m)))
           = [ToastExtractFailed m]"
    by blast
  have c10': "snd (page_step (fst (page_run initial_page ?evs))
           (ExtractSettled (Some 5) (ExtractFailed (js ''Network Error''))))
       = [ToastExtractFailed (js ''Network Error'')]"
    using c10 [rule_format, of "Some 5" "js ''Network Error''"] f
    by (simp del: page_step.simps page_run.simps)
  from T have c11: "PDFExtractionProgressComponent \<notin> set (mounted example_render_state)"
    by blast
  show ?thesis by (intro conjI k D c3 c4 c5' c6' c8 c10' c11)
qed

subsection \<open>Recipients and displayed addresses without duplicates\<close>

lemma foldl_Set_add:
  "distinct s \<Longrightarrow>
   distinct (foldl (\<lambda>s x. if x \<in> set s then s else s @ [x]) s xs)
   \<and> set (foldl (\<lambda>s x. if x \<in> set s then s else s @ [x]) s xs) = set s \<union> set xs"
proof (induction xs arbitrary: s)
  case Nil
  then show ?case by simp
next
  case (Cons x xs)
  show ?case
  proof (cases "x \<in> set s")
    case True
    with Cons.IH [OF Cons.prems] show ?thesis by auto
  next
    case False
    with Cons.prems have "distinct (s @ [x])" by simp
    from Cons.IH [OF this] False show ?thesis by auto
  qed
qed

lemma Array_from_Set_distinct: "distinct (Array_from_Set xs)"
  using foldl_Set_add [of "[]" xs] by (simp add: Array_from_Set_def)

lemma Array_from_Set_set: "set (Array_from_Set xs) = set xs"
  using foldl_Set_add [of "[]" xs] by (simp add: Array_from_Set_def)

lemma find_by_key:
  "m \<in> f ` set xs \<Longrightarrow> \<exists>e. find (\<lambda>e. f e = m) xs = Some e \<and> f e = m \<and> e \<in> set xs"
  by (induction xs) auto

lemma map_filter_find_keys:
  "set ms \<subseteq> f ` set xs \<Longrightarrow> map f (List.map_filter (\<lambda>m. find (\<lambda>e. f e = m) xs) ms) = ms"
proof (induction ms)
  case Nil
  then show ?case by (simp add: map_filter_simps)
next
  case (Cons m ms)
  then have "m \<in> f ` set xs" by simp
  from find_by_key [OF this]
  obtain e where "find (\<lambda>e. f e = m) xs = Some e" "f e = m" by blast
  with Cons show ?case by (simp add: map_filter_simps)
qed

lemma unique_emails:
  "map email (uniquePdfFallbackEmails a) = Array_from_Set (map email (pdfFallbackEmails a))"
  unfolding uniquePdfFallbackEmails_def
  by (rule map_filter_find_keys) (simp add: Array_from_Set_set)

lemma find_SomeD: "find P xs = Some e \<Longrightarrow> e \<in> set xs \<and> P e"
  by (induction xs) (auto split: if_splits)

lemma unique_subset: "e \<in> set (uniquePdfFallbackEmails a) \<Longrightarrow> e \<in> set (pdfFallbackEmails a)"
  unfolding uniquePdfFallbackEmails_def List.map_filter_def
  by (auto dest: find_SomeD)

lemma collapse_duplicates_distinct: "distinct (collapse_duplicates xs)"
  by (simp add: collapse_duplicates_def)

lemma collapse_duplicates_set: "set (collapse_duplicates xs) = set xs"
  by (simp add: collapse_duplicates_def)

lemma set_map_filter_Some: "set (List.map_filter f xs) = {y. \<exists>x \<in> set xs. f x = Some y}"
  by (induction xs) (auto simp: map_filter_simps split: option.splits)

lemma one_match_in_distinct_keys:
  "distinct (map fst xs) \<Longrightarrow> length (filter (\<lambda>(r, out). r = m \<and> P out) xs) \<le> 1"
proof (induction xs)
  case Nil
  then show ?case by simp
next
  case (Cons x xs)
  obtain r out where x: "x = (r, out)" by (cases x)
  show ?case
  proof (cases "r = m")
    case True
    with Cons.prems x have "m \<notin> fst ` set xs" by simp
    then have "filter (\<lambda>(r, out). r = m \<and> P out) xs = []"
      by (force simp: filter_empty_conv)
    then show ?thesis by simp
  next
    case False
    with Cons x show ?thesis by simp
  qed
qed

text \<open>
  C6. The recipient set of a batch has no address twice, and holds exactly the addresses
  of the entries that pass the two include flags and have an address; the dispatcher
  processes each recipient once, so that no address is sent to more than once in a batch.
  On the results page, the list of the addresses taken from the PDF of an article shows
  each address at most once, and only entries of the source \<open>pdf_fallback\<close>.
\<close>

theorem one_send_per_address:
  "distinct (recipient_set ih ifb articles)
   \<and> set (recipient_set ih ifb articles)
       = {m. \<exists>e \<in> set (concat articles). permitted ih ifb e \<and> x_email e = Some m}
   \<and> map fst (outcomes g cap contacted (recipient_set ih ifb articles))
       = recipient_set ih ifb articles
   \<and> length (filter (\<lambda>(r, out). r = m \<and> out = Sent)
               (outcomes g cap contacted (recipient_set ih ifb articles))) \<le> 1
   \<and> distinct (map email (uniquePdfFallbackEmails a))
   \<and> set (map email (uniquePdfFallbackEmails a)) = email ` set (pdfFallbackEmails a)
   \<and> (\<forall>e \<in> set (uniquePdfFallbackEmails a).
         e \<in> set (pdfFallbackEmails a) \<and> email_source e = js ''pdf_fallback'')"
proof -
  have a1: "distinct (recipient_set ih ifb articles)"
    by (simp add: recipient_set_def collapse_duplicates_distinct)
  have a2: "set (recipient_set ih ifb articles)
       = {m. \<exists>e \<in> set (concat articles). permitted ih ifb e \<and> x_email e = Some m}"
    unfolding recipient_set_def collapse_duplicates_set set_map_filter_Some by auto
  have a3: "map fst (outcomes g cap contacted (recipient_set ih ifb articles))
       = recipient_set ih ifb articles"
    by (simp add: outcomes_def dispatch_loop_recipients)
  have a4: "length (filter (\<lambda>(r, out). r = m \<and> out = Sent)
               (outcomes g cap contacted (recipient_set ih ifb articles))) \<le> 1"
    by (rule one_match_in_distinct_keys) (simp only: a3 a1)
  have a5: "distinct (map email (uniquePdfFallbackEmails a))"
    by (simp add: unique_emails Array_from_Set_distinct)
  have a6: "set (map email (uniquePdfFallbackEmails a)) = email ` set (pdfFallbackEmails a)"
    by (simp add: unique_emails Array_from_Set_set)
  have a7: "\<forall>e \<in> set (uniquePdfFallbackEmails a).
         e \<in> set (pdfFallbackEmails a) \<and> email_source e = js ''pdf_fallback''"
  proof
    fix e assume "e \<in> set (uniquePdfFallbackEmails a)"
    then have "e \<in> set (pdfFallbackEmails a)" by (rule unique_subset)
    then show "e \<in> set (pdfFallbackEmails a) \<and> email_source e = js ''pdf_fallback''"
      by (auto simp: pdfFallbackEmails_def split: option.splits)
  qed
  show ?thesis by (intro conjI a1 a2 a3 a4 a5 a6 a7)
qed

theorem one_send_per_address_witness:
  "recipient_set True True example_entries = [js ''a@x.org'', js ''b@y.org'']
   \<and> outcomes example_gateway 3 [] (recipient_set True True example_entries)
       = [(js ''a@x.org'', Sent), (js ''b@y.org'', NotSent)]
   \<and> length (filter (\<lambda>(r, out). r = js ''a@x.org'' \<and> out = Sent)
               (outcomes example_gateway 3 [] (recipient_set True True example_entries))) \<le> 1
   \<and> map email (uniquePdfFallbackEmails example_extracted) = [Some (js ''p@q.org'')]
   \<and> distinct (map email (uniquePdfFallbackEmails example_extracted))"
proof -
  have r: "recipient_set True True example_entries = [js ''a@x.org'', js ''b@y.org'']"
    by code_simp
  have o: "outcomes example_gateway 3 [] [js ''a@x.org'', js ''b@y.org'']
       = [(js ''a@x.org'', Sent), (js ''b@y.org'', NotSent)]"
    by code_simp
  have u: "map email (uniquePdfFallbackEmails example_extracted) = [Some (js ''p@q.org'')]"
    by code_simp
  from one_send_per_address [of True True example_entries example_gateway 3 "[]"
         "js ''a@x.org''" example_extracted] r o u
  show ?thesis by simp
qed

subsection \<open>The entries of an extraction\<close>

lemma author_entry_name: "x_name (author_entry hf pairs l) = h_name l"
  by (simp add: author_entry_def split: fetched.splits option.splits prod.splits)

lemma author_entry_null:
  "x_email (author_entry hf pairs l) = None \<longleftrightarrow> x_source (author_entry hf pairs l) = NotExtracted"
  by (simp add: author_entry_def split: fetched.splits option.splits prod.splits)

lemma author_entry_not_found:
  "unresolved hf l \<Longrightarrow> find (\<lambda>(n, e). n = Some (h_name l)) pairs = None \<Longrightarrow>
   author_entry hf pairs l = \<lparr>x_name = h_name l, x_email = None, x_source = NotExtracted\<rparr>"
  by (simp add: author_entry_def unresolved_def split: fetched.splits)

lemma paper_level_null:
  "e \<in> set (paper_level pairs) \<Longrightarrow> x_email e \<noteq> None \<and> x_source e = DocumentFallback"
  by (auto simp: paper_level_def)

lemma extract_article_emails:
  "\<exists>t. extract_article True hf doc links
     = Inr \<lparr>emails = map (author_entry hf (document_pairs hf doc links)) links
                       @ paper_level (document_pairs hf doc links),
            terminal = t\<rparr>"
  by (simp add: extract_article_def Let_def)

lemma document_pairs_no_match:
  assumes "l \<in> set links" and "unresolved hf l"
    and "\<forall>ps. doc = Found ps \<longrightarrow> find (\<lambda>(n, e). n = Some (h_name l)) ps = None"
  shows "find (\<lambda>(n, e). n = Some (h_name l)) (document_pairs hf doc links) = None"
proof -
  from assms(1,2) have "\<exists>l \<in> set links. unresolved hf l" by blast
  then have "document_pairs hf doc links = (case doc of Found ps \<Rightarrow> ps | _ \<Rightarrow> [])"
    by (simp add: document_pairs_def fallback_result_def)
  with assms(3) show ?thesis by (cases doc) simp_all
qed

lemma author_cell_never_attempted: "author_emails a = None \<Longrightarrow> author_cell a author = EmptyCell"
  by (simp add: author_cell_def)

lemma author_cell_found_nothing:
  "author_emails a = Some es \<Longrightarrow> find (\<lambda>e. ae_name e = al_name author) es = Some ae \<Longrightarrow>
   email ae = None \<Longrightarrow> email_source ae \<noteq> js ''pdf_fallback'' \<Longrightarrow>
   author_cell a author = NoneCell (email_source ae)"
  by (simp add: author_cell_def truthy_def)

lemma author_cell_no_entry:
  "author_emails a = Some es \<Longrightarrow> find (\<lambda>e. ae_name e = al_name author) es = None \<Longrightarrow>
   author_cell a author = NoneCell (js ''not_extracted'')"
  by (simp add: author_cell_def)

text \<open>
  C7. An extraction that runs (the network is available) returns, and every author of the
  article has an entry, in the order of the authors. An author for whom neither the home
  page nor the document gave an address has the entry with \<open>email = null\<close> and the source
  \<open>not_extracted\<close>, and a null address never comes with another source. The results page
  tells the two states apart: an article whose extraction was never attempted shows nothing
  next to the author, an entry with a null address shows \<open>None\<close> and its source, and
  so does an author without an entry in the entries of an article, as \<open>not_extracted\<close>.
\<close>

theorem every_author_has_an_entry:
  "\<exists>res. extract_article True hf doc links = Inr res
     \<and> map x_name (take (length links) (emails res)) = map h_name links
     \<and> (\<forall>l \<in> set links. \<exists>e \<in> set (emails res). x_name e = h_name l)
     \<and> (\<forall>l \<in> set links.
           unresolved hf l
           \<and> (\<forall>ps. doc = Found ps \<longrightarrow> find (\<lambda>(n, e). n = Some (h_name l)) ps = None)
           \<longrightarrow> \<lparr>x_name = h_name l, x_email = None, x_source = NotExtracted\<rparr> \<in> set (emails res))
     \<and> (\<forall>e \<in> set (emails res). x_email e = None \<longleftrightarrow> x_source e = NotExtracted)
     \<and> (author_emails a = None \<longrightarrow> author_cell a author = EmptyCell)
     \<and> (\<forall>es ae. author_emails a = Some es
           \<and> find (\<lambda>e. ae_name e = al_name author) es = Some ae
           \<and> email ae = None \<and> email_source ae \<noteq> js ''pdf_fallback''
           \<longrightarrow> author_cell a author = NoneCell (email_source ae))
     \<and> (\<forall>es. author_emails a = Some es
           \<and> find (\<lambda>e. ae_name e = al_name author) es = None
           \<longrightarrow> author_cell a author = NoneCell (js ''not_extracted''))"
proof -
  let ?pairs = "document_pairs hf doc links"
  from extract_article_emails [of hf doc links]
  obtain t where r: "extract_article True hf doc links
     = Inr \<lparr>emails = map (author_entry hf ?pairs) links @ paper_level ?pairs, terminal = t\<rparr>"
    by blast
  let ?res = "\<lparr>emails = map (author_entry hf ?pairs) links @ paper_level ?pairs, terminal = t\<rparr>"
  have b1: "map x_name (take (length links) (emails ?res)) = map h_name links"
    by (simp add: author_entry_name comp_def)
  have b2: "\<forall>l \<in> set links. \<exists>e \<in> set (emails ?res). x_name e = h_name l"
  proof
    fix l assume "l \<in> set links"
    then have "author_entry hf ?pairs l \<in> set (emails ?res)" by simp
    then show "\<exists>e \<in> set (emails ?res). x_name e = h_name l"
      using author_entry_name by blast
  qed
  have b3: "\<forall>l \<in> set links.
           unresolved hf l
           \<and> (\<forall>ps. doc = Found ps \<longrightarrow> find (\<lambda>(n, e). n = Some (h_name l)) ps = None)
           \<longrightarrow> \<lparr>x_name = h_name l, x_email = None, x_source = NotExtracted\<rparr> \<in> set (emails ?res)"
  proof (intro ballI impI)
    fix l assume l: "l \<in> set links"
      and u: "unresolved hf l
           \<and> (\<forall>ps. doc = Found ps \<longrightarrow> find (\<lambda>(n, e). n = Some (h_name l)) ps = None)"
    from document_pairs_no_match [OF l] u
    have "find (\<lambda>(n, e). n = Some (h_name l)) ?pairs = None" by blast
    with u have "author_entry hf ?pairs l
       = \<lparr>x_name = h_name l, x_email = None, x_source = NotExtracted\<rparr>"
      by (simp add: author_entry_not_found)
    moreover from l have "author_entry hf ?pairs l \<in> set (emails ?res)" by simp
    ultimately show "\<lparr>x_name = h_name l, x_email = None, x_source = NotExtracted\<rparr> \<in> set (emails ?res)"
      by simp
  qed
  have b4: "\<forall>e \<in> set (emails ?res). x_email e = None \<longleftrightarrow> x_source e = NotExtracted"
  proof
    fix e assume "e \<in> set (emails ?res)"
    then consider l where "e = author_entry hf ?pairs l" | "e \<in> set (paper_level ?pairs)"
      by auto
    then show "x_email e = None \<longleftrightarrow> x_source e = NotExtracted"
    proof cases
      case 1
      then show ?thesis by (simp add: author_entry_null)
    next
      case 2
      from paper_level_null [OF this] show ?thesis by simp
    qed
  qed
  have b5: "author_emails a = None \<longrightarrow> author_cell a author = EmptyCell"
    by (simp add: author_cell_never_attempted)
  have b6: "\<forall>es ae. author_emails a = Some es
           \<and> find (\<lambda>e. ae_name e = al_name author) es = Some ae
           \<and> email ae = None \<and> email_source ae \<noteq> js ''pdf_fallback''
           \<longrightarrow> author_cell a author = NoneCell (email_source ae)"
    using author_cell_found_nothing by blast
  have b7: "\<forall>es. author_emails a = Some es
           \<and> find (\<lambda>e. ae_name e = al_name author) es = None
           \<longrightarrow> author_cell a author = NoneCell (js ''not_extracted'')"
    using author_cell_no_entry by blast
  show ?thesis
    by (rule exI [of _ ?res]) (intro conjI r b1 b2 b3 b4 b5 b6 b7)
qed

theorem every_author_has_an_entry_witness:
  "extract_article True example_homepage example_document example_links
     = Inr \<lparr>emails =
          [\<lparr>x_name = js ''A Author'', x_email = Some (js ''a@x.org''), x_source = Homepage\<rparr>,
           \<lparr>x_name = js ''B Writer'', x_email = None, x_source = NotExtracted\<rparr>,
           \<lparr>x_name = js ''C Third'', x_email = Some (js ''c@z.org''), x_source = DocumentFallback\<rparr>,
           \<lparr>x_name = [], x_email = Some (js ''p@q.org''), x_source = DocumentFallback\<rparr>],
        terminal = Done\<rparr>
   \<and> \<lparr>x_name = js ''B Writer'', x_email = None, x_source = NotExtracted\<rparr>
       \<in> set [\<lparr>x_name = js ''A Author'', x_email = Some (js ''a@x.org''), x_source = Homepage\<rparr>,
           \<lparr>x_name = js ''B Writer'', x_email = None, x_source = NotExtracted\<rparr>,
           \<lparr>x_name = js ''C Third'', x_email = Some (js ''c@z.org''), x_source = DocumentFallback\<rparr>,
           \<lparr>x_name = [], x_email = Some (js ''p@q.org''), x_source = DocumentFallback\<rparr>]
   \<and> author_cell example_article \<lparr>al_name = js ''B Writer'', scholar_url = js ''https://s/b''\<rparr>
       = EmptyCell
   \<and> author_cell example_extracted \<lparr>al_name = js ''B Writer'', scholar_url = js ''https://s/b''\<rparr>
       = NoneCell (js ''not_extracted'')"
proof -
  let ?b = "\<lparr>al_name = js ''B Writer'', scholar_url = js ''https://s/b''\<rparr>"
  let ?ae = "\<lparr>ae_name = js ''B Writer'', email = None, email_source = js ''not_extracted'',
          homepage = None\<rparr>"
  have e: "extract_article True example_homepage example_document example_links
     = Inr \<lparr>emails =
          [\<lparr>x_name = js ''A Author'', x_email = Some (js ''a@x.org''), x_source = Homepage\<rparr>,
           \<lparr>x_name = js ''B Writer'', x_email = None, x_source = NotExtracted\<rparr>,
           \<lparr>x_name = js ''C Third'', x_email = Some (js ''c@z.org''), x_source = DocumentFallback\<rparr>,
           \<lparr>x_name = [], x_email = Some (js ''p@q.org''), x_source = DocumentFallback\<rparr>],
        terminal = Done\<rparr>"
    by code_simp
  have n: "author_emails example_article = None" by (simp add: example_article_def)
  have x: "author_emails example_extracted = Some
       [\<lparr>ae_name = js ''A Author'', email = Some (js ''a@x.org''), email_source = js ''homepage'',
          homepage = None\<rparr>,
        \<lparr>ae_name = js ''C Third'', email = Some (js ''p@q.org''), email_source = js ''pdf_fallback'',
          homepage = None\<rparr>,
        \<lparr>ae_name = js ''D Fourth'', email = Some (js ''p@q.org''), email_source = js ''pdf_fallback'',
          homepage = None\<rparr>, ?ae]"
    by (simp add: example_extracted_def)
  have f: "find (\<lambda>e. ae_name e = al_name ?b)
       [\<lparr>ae_name = js ''A Author'', email = Some (js ''a@x.org''), email_source = js ''homepage'',
          homepage = None\<rparr>,
        \<lparr>ae_name = js ''C Third'', email = Some (js ''p@q.org''), email_source = js ''pdf_fallback'',
          homepage = None\<rparr>,
        \<lparr>ae_name = js ''D Fourth'', email = Some (js ''p@q.org''), email_source = js ''pdf_fallback'',
          homepage = None\<rparr>, ?ae] = Some ?ae"
    by code_simp
  have s: "js ''not_extracted'' \<noteq> js ''pdf_fallback''" by code_simp
  from every_author_has_an_entry
         [of example_homepage example_document example_links example_article ?b]
    n have c1: "author_cell example_article ?b = EmptyCell"
    by blast
  from every_author_has_an_entry
         [of example_homepage example_document example_links example_extracted ?b]
  have "\<forall>es ae. author_emails example_extracted = Some es
           \<and> find (\<lambda>e. ae_name e = al_name ?b) es = Some ae
           \<and> email ae = None \<and> email_source ae \<noteq> js ''pdf_fallback''
           \<longrightarrow> author_cell example_extracted ?b = NoneCell (email_source ae)"
    by blast
  with x f s have c2: "author_cell example_extracted ?b = NoneCell (js ''not_extracted'')"
    by fastforce
  let ?l = "\<lparr>h_name = js ''B Writer'', homepage_url = js ''https://y.org/b''\<rparr>"
  have l: "?l \<in> set example_links" by (simp add: example_links_def)
  have u: "unresolved example_homepage ?l" by code_simp
  have m: "\<forall>ps. example_document = Found ps
             \<longrightarrow> find (\<lambda>(n, e). n = Some (h_name ?l)) ps = None"
  proof (intro allI impI)
    fix ps assume "example_document = Found ps"
    then have ps: "ps = [(Some (js ''C Third''), js ''c@z.org''), (None, js ''p@q.org'')]"
      by (simp add: example_document_def)
    have "find (\<lambda>(n, e). n = Some (h_name ?l))
            [(Some (js ''C Third''), js ''c@z.org''), (None, js ''p@q.org'')] = None"
      by code_simp
    with ps show "find (\<lambda>(n, e). n = Some (h_name ?l)) ps = None" by simp
  qed
  from every_author_has_an_entry
         [of example_homepage example_document example_links example_article ?b]
  obtain res where r: "extract_article True example_homepage example_document example_links = Inr res"
    and b3: "\<forall>l \<in> set example_links.
           unresolved example_homepage l
           \<and> (\<forall>ps. example_document = Found ps
                  \<longrightarrow> find (\<lambda>(n, e). n = Some (h_name l)) ps = None)
           \<longrightarrow> \<lparr>x_name = h_name l, x_email = None, x_source = NotExtracted\<rparr> \<in> set (emails res)"
    by blast
  from b3 l u m have "\<lparr>x_name = h_name ?l, x_email = None, x_source = NotExtracted\<rparr> \<in> set (emails res)"
    by blast
  with r e have c3: "\<lparr>x_name = js ''B Writer'', x_email = None, x_source = NotExtracted\<rparr>
       \<in> set [\<lparr>x_name = js ''A Author'', x_email = Some (js ''a@x.org''), x_source = Homepage\<rparr>,
           \<lparr>x_name = js ''B Writer'', x_email = None, x_source = NotExtracted\<rparr>,
           \<lparr>x_name = js ''C Third'', x_email = Some (js ''c@z.org''), x_source = DocumentFallback\<rparr>,
           \<lparr>x_name = [], x_email = Some (js ''p@q.org''), x_source = DocumentFallback\<rparr>]"
    by simp
  from e c3 c1 c2 show ?thesis by (intro conjI)
qed

subsection \<open>The inputs of a preview and of a send\<close>

text \<open>
  When the dialog requests a preview and requests a send for the same properties, both
  requests carry the same author name, paper title, venue, year and citations; the send
  carries the address of the properties and the subject of the dialog in addition.
\<close>

lemma preview_and_send_same_inputs:
  assumes "snd (generatePreview props st) = [PostPreviewEmail prq]"
    and "snd (sendEmail props st') = [PostSendEmail srq]"
  shows "author_name prq = sr_author_name srq \<and> paper_title prq = sr_paper_title srq
       \<and> paper_venue prq = sr_paper_venue srq \<and> paper_year prq = sr_paper_year srq
       \<and> paper_citations prq = sr_paper_citations srq
       \<and> to_email srq = authorEmail props \<and> sr_subject srq = es_subject st'"
proof -
  from assms(1) have p: "prq = \<lparr>author_name = authorName props, paper_title = paperTitle props,
            paper_venue = paperVenue props, paper_year = paperYear props,
            paper_citations = paperCitations props\<rparr>"
    by (simp add: generatePreview_def split: if_splits)
  from assms(2) have s: "srq = \<lparr>to_email = authorEmail props, sr_subject = es_subject st',
            sr_author_name = authorName props, sr_paper_title = paperTitle props,
            sr_paper_venue = paperVenue props, sr_paper_year = paperYear props,
            sr_paper_citations = paperCitations props\<rparr>"
    by (simp add: sendEmail_def split: if_splits)
  show ?thesis by (simp add: p s)
qed

end
